theory Spec2Isabelle
  imports Complex_Main "HOL-Library.Sublist" "HOL-Library.Multiset"
begin

section \<open>Data model (backend/src/types.ts)\<close>

text \<open>
  A JavaScript \<open>Date\<close> is its time value, the number of milliseconds since the epoch, as an
  \<open>int\<close>. A JavaScript \<open>number\<close> that holds a count or a point total is an \<open>int\<close>. Optional
  fields are \<open>option\<close>s. Field names carry a prefix per interface (\<open>u_\<close>, \<open>c_\<close>, \<open>uc_\<close>,
  \<open>ci_\<close>, \<open>b_\<close>), since the interfaces share the names \<open>id\<close>, \<open>name\<close>, \<open>userId\<close>, ...
\<close>

type_synonym Date = int

type_synonym Metadata = "(string \<times> string) list"

datatype Role = RUser | RAdmin | RBusiness

record User =
  u_id :: string
  u_email :: string
  u_password :: string
  u_name :: string
  u_role :: Role
  u_points :: int
  u_createdAt :: Date
  u_updatedAt :: Date

record Card =
  c_id :: string
  c_businessId :: string
  c_name :: string
  c_description :: "string option"
  c_logo :: "string option"
  c_backgroundColor :: "string option"
  c_isActive :: bool
  c_metadata :: "Metadata option"
  c_createdAt :: Date
  c_updatedAt :: Date

record UserCard =
  uc_id :: string
  uc_userId :: string
  uc_cardId :: string
  uc_addedAt :: Date
  uc_lastCheckIn :: "Date option"

record CheckIn =
  ci_id :: string
  ci_userId :: string
  ci_cardId :: string
  ci_businessId :: string
  ci_pointsEarned :: int
  ci_timestamp :: Date
  ci_location :: "string option"
  ci_metadata :: "Metadata option"

record Business =
  b_id :: string
  b_name :: string
  b_email :: string
  b_ownerId :: string
  b_logo :: "string option"
  b_createdAt :: Date
  b_updatedAt :: Date

record JwtPayload =
  jwt_userId :: string
  jwt_email :: string
  jwt_role :: string

record CheckInRequest =
  rq_cardId :: string
  rq_location :: "string option"
  rq_metadata :: "Metadata option"

record CheckInResponse =
  rs_checkIn :: CheckIn
  rs_totalPoints :: int
  rs_message :: string

text \<open>
  \<open>Partial<User>\<close>, \<open>Partial<Card>\<close> and \<open>Partial<UserCard>\<close>: every field may be absent.
  The object spread \<open>{ ...x, ...updates }\<close> takes a field from \<open>updates\<close> when it is present
  there and from \<open>x\<close> otherwise.
\<close>

record PartialUser =
  pu_id :: "string option"
  pu_email :: "string option"
  pu_password :: "string option"
  pu_name :: "string option"
  pu_role :: "Role option"
  pu_points :: "int option"
  pu_createdAt :: "Date option"
  pu_updatedAt :: "Date option"

record PartialCard =
  pc_id :: "string option"
  pc_businessId :: "string option"
  pc_name :: "string option"
  pc_description :: "string option"
  pc_logo :: "string option"
  pc_backgroundColor :: "string option"
  pc_isActive :: "bool option"
  pc_metadata :: "Metadata option"
  pc_createdAt :: "Date option"
  pc_updatedAt :: "Date option"

record PartialUserCard =
  puc_id :: "string option"
  puc_userId :: "string option"
  puc_cardId :: "string option"
  puc_addedAt :: "Date option"
  puc_lastCheckIn :: "Date option"

definition orElse :: "'a option \<Rightarrow> 'a \<Rightarrow> 'a" where
  "orElse x d = (case x of None \<Rightarrow> d | Some v \<Rightarrow> v)"

definition orElseOpt :: "'a option \<Rightarrow> 'a option \<Rightarrow> 'a option" where
  "orElseOpt x d = (case x of None \<Rightarrow> d | Some v \<Rightarrow> Some v)"

definition noUserUpdates :: PartialUser where
  "noUserUpdates = \<lparr>pu_id = None, pu_email = None, pu_password = None, pu_name = None,
     pu_role = None, pu_points = None, pu_createdAt = None, pu_updatedAt = None\<rparr>"

definition noUserCardUpdates :: PartialUserCard where
  "noUserCardUpdates = \<lparr>puc_id = None, puc_userId = None, puc_cardId = None,
     puc_addedAt = None, puc_lastCheckIn = None\<rparr>"

definition spreadUser :: "User \<Rightarrow> PartialUser \<Rightarrow> User" where
  "spreadUser u p =
     \<lparr>u_id = orElse (pu_id p) (u_id u),
      u_email = orElse (pu_email p) (u_email u),
      u_password = orElse (pu_password p) (u_password u),
      u_name = orElse (pu_name p) (u_name u),
      u_role = orElse (pu_role p) (u_role u),
      u_points = orElse (pu_points p) (u_points u),
      u_createdAt = orElse (pu_createdAt p) (u_createdAt u),
      u_updatedAt = orElse (pu_updatedAt p) (u_updatedAt u)\<rparr>"

definition spreadCard :: "Card \<Rightarrow> PartialCard \<Rightarrow> Card" where
  "spreadCard c p =
     \<lparr>c_id = orElse (pc_id p) (c_id c),
      c_businessId = orElse (pc_businessId p) (c_businessId c),
      c_name = orElse (pc_name p) (c_name c),
      c_description = orElseOpt (pc_description p) (c_description c),
      c_logo = orElseOpt (pc_logo p) (c_logo c),
      c_backgroundColor = orElseOpt (pc_backgroundColor p) (c_backgroundColor c),
      c_isActive = orElse (pc_isActive p) (c_isActive c),
      c_metadata = orElseOpt (pc_metadata p) (c_metadata c),
      c_createdAt = orElse (pc_createdAt p) (c_createdAt c),
      c_updatedAt = orElse (pc_updatedAt p) (c_updatedAt c)\<rparr>"

definition spreadUserCard :: "UserCard \<Rightarrow> PartialUserCard \<Rightarrow> UserCard" where
  "spreadUserCard uc p =
     \<lparr>uc_id = orElse (puc_id p) (uc_id uc),
      uc_userId = orElse (puc_userId p) (uc_userId uc),
      uc_cardId = orElse (puc_cardId p) (uc_cardId uc),
      uc_addedAt = orElse (puc_addedAt p) (uc_addedAt uc),
      uc_lastCheckIn = orElseOpt (puc_lastCheckIn p) (uc_lastCheckIn uc)\<rparr>"

section \<open>JavaScript \<open>Map\<close>: an association list in insertion order\<close>

text \<open>
  \<open>Map.prototype.set\<close> replaces the value of a key that is present, in place, and appends a
  new key at the end; \<open>values()\<close> iterates in insertion order; \<open>delete\<close> answers whether the
  key was present.
\<close>

type_synonym ('k, 'v) JsMap = "('k \<times> 'v) list"

definition Map_get :: "('k, 'v) JsMap \<Rightarrow> 'k \<Rightarrow> 'v option" where
  "Map_get m k = map_of m k"

fun Map_set :: "('k, 'v) JsMap \<Rightarrow> 'k \<Rightarrow> 'v \<Rightarrow> ('k, 'v) JsMap" where
  "Map_set [] k v = [(k, v)]"
| "Map_set ((k', v') # m) k v = (if k' = k then (k, v) # m else (k', v') # Map_set m k v)"

definition Map_has :: "('k, 'v) JsMap \<Rightarrow> 'k \<Rightarrow> bool" where
  "Map_has m k = (k \<in> set (map fst m))"

definition Map_delete :: "('k, 'v) JsMap \<Rightarrow> 'k \<Rightarrow> bool \<times> ('k, 'v) JsMap" where
  "Map_delete m k = (Map_has m k, filter (\<lambda>e. fst e \<noteq> k) m)"

definition Map_values :: "('k, 'v) JsMap \<Rightarrow> 'v list" where
  "Map_values m = map snd m"

section \<open>The in-memory store (backend/src/data/store.ts)\<close>

record DataStore =
  users :: "(string, User) JsMap"
  cards :: "(string, Card) JsMap"
  userCards :: "(string, UserCard) JsMap"
  checkIns :: "CheckIn list"
  businesses :: "(string, Business) JsMap"

definition createUser :: "User \<Rightarrow> DataStore \<Rightarrow> User \<times> DataStore" where
  "createUser user s = (user, s\<lparr>users := Map_set (users s) (u_id user) user\<rparr>)"

definition getUserById :: "DataStore \<Rightarrow> string \<Rightarrow> User option" where
  "getUserById s i = Map_get (users s) i"

definition getUserByEmail :: "DataStore \<Rightarrow> string \<Rightarrow> User option" where
  "getUserByEmail s email = find (\<lambda>u. u_email u = email) (Map_values (users s))"

definition getAllUsers :: "DataStore \<Rightarrow> User list" where
  "getAllUsers s = Map_values (users s)"

text \<open>\<open>updateUser\<close> reads the clock once, for \<open>updatedAt\<close>: the reading is the argument \<open>now\<close>.\<close>

definition updateUser :: "Date \<Rightarrow> string \<Rightarrow> PartialUser \<Rightarrow> DataStore \<Rightarrow> User option \<times> DataStore" where
  "updateUser now i updates s =
     (case Map_get (users s) i of
        None \<Rightarrow> (None, s)
      | Some user \<Rightarrow>
          (let updated = (spreadUser user updates)\<lparr>u_updatedAt := now\<rparr>
           in (Some updated, s\<lparr>users := Map_set (users s) i updated\<rparr>)))"

definition createCard :: "Card \<Rightarrow> DataStore \<Rightarrow> Card \<times> DataStore" where
  "createCard crd s = (crd, s\<lparr>cards := Map_set (cards s) (c_id crd) crd\<rparr>)"

definition getCardById :: "DataStore \<Rightarrow> string \<Rightarrow> Card option" where
  "getCardById s i = Map_get (cards s) i"

definition getAllCards :: "DataStore \<Rightarrow> Card list" where
  "getAllCards s = Map_values (cards s)"

definition getCardsByBusinessId :: "DataStore \<Rightarrow> string \<Rightarrow> Card list" where
  "getCardsByBusinessId s bid = filter (\<lambda>c. c_businessId c = bid) (Map_values (cards s))"

definition updateCard :: "Date \<Rightarrow> string \<Rightarrow> PartialCard \<Rightarrow> DataStore \<Rightarrow> Card option \<times> DataStore" where
  "updateCard now i updates s =
     (case Map_get (cards s) i of
        None \<Rightarrow> (None, s)
      | Some crd \<Rightarrow>
          (let updated = (spreadCard crd updates)\<lparr>c_updatedAt := now\<rparr>
           in (Some updated, s\<lparr>cards := Map_set (cards s) i updated\<rparr>)))"

definition deleteCard :: "string \<Rightarrow> DataStore \<Rightarrow> bool \<times> DataStore" where
  "deleteCard i s = (case Map_delete (cards s) i of (r, m) \<Rightarrow> (r, s\<lparr>cards := m\<rparr>))"

text \<open>The wallet key is the template string \<open>`${userId}-${cardId}`\<close>.\<close>

definition userCardKey :: "string \<Rightarrow> string \<Rightarrow> string" where
  "userCardKey userId cardId = userId @ ''-'' @ cardId"

definition addCardToUser :: "UserCard \<Rightarrow> DataStore \<Rightarrow> UserCard \<times> DataStore" where
  "addCardToUser userCard s =
     (userCard,
      s\<lparr>userCards := Map_set (userCards s) (userCardKey (uc_userId userCard) (uc_cardId userCard)) userCard\<rparr>)"

definition getUserCards :: "DataStore \<Rightarrow> string \<Rightarrow> UserCard list" where
  "getUserCards s userId = filter (\<lambda>uc. uc_userId uc = userId) (Map_values (userCards s))"

definition getUserCard :: "DataStore \<Rightarrow> string \<Rightarrow> string \<Rightarrow> UserCard option" where
  "getUserCard s userId cardId = Map_get (userCards s) (userCardKey userId cardId)"

definition updateUserCard ::
  "string \<Rightarrow> string \<Rightarrow> PartialUserCard \<Rightarrow> DataStore \<Rightarrow> UserCard option \<times> DataStore" where
  "updateUserCard userId cardId updates s =
     (let key = userCardKey userId cardId in
      case Map_get (userCards s) key of
        None \<Rightarrow> (None, s)
      | Some userCard \<Rightarrow>
          (let updated = spreadUserCard userCard updates
           in (Some updated, s\<lparr>userCards := Map_set (userCards s) key updated\<rparr>)))"

definition removeCardFromUser :: "string \<Rightarrow> string \<Rightarrow> DataStore \<Rightarrow> bool \<times> DataStore" where
  "removeCardFromUser userId cardId s =
     (case Map_delete (userCards s) (userCardKey userId cardId) of
        (r, m) \<Rightarrow> (r, s\<lparr>userCards := m\<rparr>))"

definition createCheckIn :: "CheckIn \<Rightarrow> DataStore \<Rightarrow> CheckIn \<times> DataStore" where
  "createCheckIn checkIn s = (checkIn, s\<lparr>checkIns := checkIns s @ [checkIn]\<rparr>)"

definition getCheckInsByUserId :: "DataStore \<Rightarrow> string \<Rightarrow> CheckIn list" where
  "getCheckInsByUserId s userId = filter (\<lambda>c. ci_userId c = userId) (checkIns s)"

definition getCheckInsByCardId :: "DataStore \<Rightarrow> string \<Rightarrow> CheckIn list" where
  "getCheckInsByCardId s cardId = filter (\<lambda>c. ci_cardId c = cardId) (checkIns s)"

definition getCheckInsByBusinessId :: "DataStore \<Rightarrow> string \<Rightarrow> CheckIn list" where
  "getCheckInsByBusinessId s bid = filter (\<lambda>c. ci_businessId c = bid) (checkIns s)"

definition getAllCheckIns :: "DataStore \<Rightarrow> CheckIn list" where
  "getAllCheckIns s = checkIns s"

definition getCheckInsInDateRange :: "DataStore \<Rightarrow> Date \<Rightarrow> Date \<Rightarrow> CheckIn list" where
  "getCheckInsInDateRange s startDate endDate =
     filter (\<lambda>c. ci_timestamp c \<ge> startDate \<and> ci_timestamp c \<le> endDate) (checkIns s)"

definition createBusiness :: "Business \<Rightarrow> DataStore \<Rightarrow> Business \<times> DataStore" where
  "createBusiness business s =
     (business, s\<lparr>businesses := Map_set (businesses s) (b_id business) business\<rparr>)"

definition getBusinessById :: "DataStore \<Rightarrow> string \<Rightarrow> Business option" where
  "getBusinessById s i = Map_get (businesses s) i"

definition getAllBusinesses :: "DataStore \<Rightarrow> Business list" where
  "getAllBusinesses s = Map_values (businesses s)"

text \<open>
  \<open>initializeMockData\<close> creates the demo business and the three demo cards, all stamped with
  the clock reading \<open>now\<close>; \<open>clearAll\<close> empties every collection and then calls it. The
  demo logos are emoji in the source; they stand here as ASCII words.
\<close>

definition demoCard :: "Date \<Rightarrow> string \<Rightarrow> string \<Rightarrow> string \<Rightarrow> string \<Rightarrow> string \<Rightarrow> Card" where
  "demoCard now i nm descr logo colour =
     \<lparr>c_id = i, c_businessId = ''business-1'', c_name = nm, c_description = Some descr,
      c_logo = Some logo, c_backgroundColor = Some colour, c_isActive = True,
      c_metadata = None, c_createdAt = now, c_updatedAt = now\<rparr>"

definition initializeMockData :: "Date \<Rightarrow> DataStore \<Rightarrow> DataStore" where
  "initializeMockData now s =
     (let demoBusiness = \<lparr>b_id = ''business-1'', b_name = ''SharkBand Demo Business'',
            b_email = ''demo@sharkband.com'', b_ownerId = ''admin-1'',
            b_logo = Some ''https://via.placeholder.com/150'',
            b_createdAt = now, b_updatedAt = now\<rparr>;
          s1 = snd (createBusiness demoBusiness s);
          demoCards =
            [demoCard now ''card-1'' ''Coffee Loyalty Card'' ''Buy 10 coffees, get 1 free!''
               ''coffee'' ''#6F4E37'',
             demoCard now ''card-2'' ''Gym Membership'' ''Track your gym visits and earn rewards''
               ''muscle'' ''#FF6B6B'',
             demoCard now ''card-3'' ''VIP Access Pass'' ''Exclusive access to premium events''
               ''star'' ''#4ECDC4'']
      in fold (\<lambda>crd st. snd (createCard crd st)) demoCards s1)"

definition emptyStore :: DataStore where
  "emptyStore = \<lparr>users = [], cards = [], userCards = [], checkIns = [], businesses = []\<rparr>"

definition clearAll :: "Date \<Rightarrow> DataStore \<Rightarrow> DataStore" where
  "clearAll now s =
     initializeMockData now
       (s\<lparr>users := [], cards := [], userCards := [], checkIns := [], businesses := []\<rparr>)"

section \<open>Check-in route (backend/src/routes/checkins.ts)\<close>

definition calculatePoints :: "string \<Rightarrow> string \<Rightarrow> int" where
  "calculatePoints cardId userId = (let basePoints = 10 in basePoints)"

text \<open>
  The responses of \<open>POST /checkins\<close> that are not the 201: each is a status code and an
  error message.
\<close>

datatype CheckInError =
    NotAuthenticated
  | ValidationFailed
  | CardNotFound
  | CardNotActive
  | CardNotInWallet
  | UserNotFound

fun errorStatus :: "CheckInError \<Rightarrow> nat" where
  "errorStatus NotAuthenticated = 401"
| "errorStatus ValidationFailed = 400"
| "errorStatus CardNotFound = 404"
| "errorStatus CardNotActive = 400"
| "errorStatus CardNotInWallet = 400"
| "errorStatus UserNotFound = 404"

fun errorMessage :: "CheckInError \<Rightarrow> string" where
  "errorMessage NotAuthenticated = ''Not authenticated''"
| "errorMessage ValidationFailed = ''Validation failed''"
| "errorMessage CardNotFound = ''Card not found''"
| "errorMessage CardNotActive = ''Card is not active''"
| "errorMessage CardNotInWallet = ''Card not in your wallet. Please add it first.''"
| "errorMessage UserNotFound = ''User not found''"

text \<open>Decimal rendering of a number inside a template string.\<close>

fun showNat :: "nat \<Rightarrow> string" where
  "showNat n =
     (if n < 10 then [char_of (48 + n)]
      else showNat (n div 10) @ [char_of (48 + n mod 10)])"

declare showNat.simps [simp del]

definition showInt :: "int \<Rightarrow> string" where
  "showInt i = (if i < 0 then ''-'' @ showNat (nat (- i)) else showNat (nat i))"

text \<open>
  What the handler takes from outside the store: the identifier that \<open>uuidv4()\<close> returns and
  the three readings of the clock, in the order in which they are taken. The first is the
  event's \<open>timestamp\<close>, the second is taken inside \<open>updateUser\<close> for \<open>updatedAt\<close>, the third
  is the \<open>new Date()\<close> written to \<open>lastCheckIn\<close>.
\<close>

record CheckInEnv =
  env_uuid :: string
  env_nowEvent :: Date
  env_nowUser :: Date
  env_nowCard :: Date

text \<open>
  \<open>checkInSchema.parse\<close>: the body's \<open>cardId\<close> has to pass zod's \<open>uuid()\<close> test, which is a
  parameter here (\<open>isUuid\<close>); \<open>None\<close> is the \<open>ZodError\<close>.
\<close>

definition checkInSchema_parse :: "(string \<Rightarrow> bool) \<Rightarrow> CheckInRequest \<Rightarrow> CheckInRequest option" where
  "checkInSchema_parse isUuid body = (if isUuid (rq_cardId body) then Some body else None)"

text \<open>
  The handler of \<open>POST /checkins\<close>, in the order of the source: authentication, schema,
  card lookup, \<open>isActive\<close>, wallet lookup, points, \<open>createCheckIn\<close>, and only then the
  user lookup, whose failure answers 404 after the event has been pushed.
\<close>

definition postCheckIn ::
  "(string \<Rightarrow> bool) \<Rightarrow> CheckInEnv \<Rightarrow> JwtPayload option \<Rightarrow> CheckInRequest \<Rightarrow> DataStore
     \<Rightarrow> (CheckInError + CheckInResponse) \<times> DataStore" where
  "postCheckIn isUuid env reqUser body s =
     (case reqUser of
        None \<Rightarrow> (Inl NotAuthenticated, s)
      | Some ru \<Rightarrow>
     (case checkInSchema_parse isUuid body of
        None \<Rightarrow> (Inl ValidationFailed, s)
      | Some validated \<Rightarrow>
     (case getCardById s (rq_cardId validated) of
        None \<Rightarrow> (Inl CardNotFound, s)
      | Some crd \<Rightarrow>
     if \<not> c_isActive crd then (Inl CardNotActive, s)
     else
     (case getUserCard s (jwt_userId ru) (rq_cardId validated) of
        None \<Rightarrow> (Inl CardNotInWallet, s)
      | Some userCard \<Rightarrow>
     (let pointsEarned = calculatePoints (rq_cardId validated) (jwt_userId ru);
          checkIn = \<lparr>ci_id = env_uuid env,
                     ci_userId = jwt_userId ru,
                     ci_cardId = rq_cardId validated,
                     ci_businessId = c_businessId crd,
                     ci_pointsEarned = pointsEarned,
                     ci_timestamp = env_nowEvent env,
                     ci_location = rq_location validated,
                     ci_metadata = rq_metadata validated\<rparr>;
          s1 = snd (createCheckIn checkIn s)
      in case getUserById s1 (jwt_userId ru) of
           Some user \<Rightarrow>
             (let newPoints = u_points user + pointsEarned;
                  s2 = snd (updateUser (env_nowUser env) (jwt_userId ru)
                              (noUserUpdates\<lparr>pu_points := Some newPoints\<rparr>) s1);
                  s3 = snd (updateUserCard (jwt_userId ru) (rq_cardId validated)
                              (noUserCardUpdates\<lparr>puc_lastCheckIn := Some (env_nowCard env)\<rparr>) s2);
                  response = \<lparr>rs_checkIn = checkIn,
                              rs_totalPoints = newPoints,
                              rs_message = ''Check-in successful! You earned ''
                                 @ showInt pointsEarned @ '' points.''\<rparr>
              in (Inr response, s3))
         | None \<Rightarrow> (Inl UserNotFound, s1))))))"

section \<open>Wallet and registration routes (routes/cards.ts, routes/auth.ts)\<close>

datatype AddCardError = AddNotAuthenticated | AddCardNotFound | AddCardNotActive | AlreadyInWallet

text \<open>\<open>POST /cards/:id/add\<close>; \<open>uuid\<close> is what \<open>uuidv4()\<close> returns, \<open>now\<close> the clock.\<close>

definition postAddCard ::
  "string \<Rightarrow> Date \<Rightarrow> JwtPayload option \<Rightarrow> string \<Rightarrow> DataStore \<Rightarrow> (AddCardError + UserCard) \<times> DataStore" where
  "postAddCard uuid now reqUser paramId s =
     (case reqUser of
        None \<Rightarrow> (Inl AddNotAuthenticated, s)
      | Some ru \<Rightarrow>
     (case getCardById s paramId of
        None \<Rightarrow> (Inl AddCardNotFound, s)
      | Some crd \<Rightarrow>
     if \<not> c_isActive crd then (Inl AddCardNotActive, s)
     else
     (case getUserCard s (jwt_userId ru) paramId of
        Some existing \<Rightarrow> (Inl AlreadyInWallet, s)
      | None \<Rightarrow>
          (let userCard = \<lparr>uc_id = uuid, uc_userId = jwt_userId ru, uc_cardId = paramId,
                           uc_addedAt = now, uc_lastCheckIn = None\<rparr>
           in case addCardToUser userCard s of (created, s') \<Rightarrow> (Inr created, s')))))"

text \<open>
  \<open>POST /auth/register\<close> after \<open>registerSchema.parse\<close>: \<open>hashed\<close> is what \<open>bcrypt.hash\<close>
  returns, \<open>uuid\<close> what \<open>uuidv4()\<close> returns; both \<open>new Date()\<close> readings are \<open>nowC\<close> and
  \<open>nowU\<close>. The token of the response is left out.
\<close>

datatype RegisterError = EmailAlreadyRegistered

definition postRegister ::
  "string \<Rightarrow> string \<Rightarrow> Date \<Rightarrow> Date \<Rightarrow> string \<Rightarrow> string \<Rightarrow> Role \<Rightarrow> DataStore
     \<Rightarrow> (RegisterError + User) \<times> DataStore" where
  "postRegister uuid hashed nowC nowU email nm role s =
     (case getUserByEmail s email of
        Some existingUser \<Rightarrow> (Inl EmailAlreadyRegistered, s)
      | None \<Rightarrow>
          (let newUser = \<lparr>u_id = uuid, u_email = email, u_password = hashed, u_name = nm,
                          u_role = role, u_points = 0, u_createdAt = nowC, u_updatedAt = nowU\<rparr>
           in case createUser newUser s of (created, s') \<Rightarrow> (Inr created, s')))"

section \<open>The store's mutating methods as one type\<close>

text \<open>
  Every method of \<open>DataStore\<close> that writes, as a constructor, and its effect on the store.
  The reading methods are the functions above: they take the store and return a value, and
  the routes call the in-place \<open>sort\<close> only on arrays that \<open>filter\<close> has just built, never on
  the array that \<open>getAllCheckIns\<close> hands out.
\<close>

datatype StoreOp =
    OpCreateUser User
  | OpUpdateUser Date string PartialUser
  | OpCreateCard Card
  | OpUpdateCard Date string PartialCard
  | OpDeleteCard string
  | OpAddCardToUser UserCard
  | OpUpdateUserCard string string PartialUserCard
  | OpRemoveCardFromUser string string
  | OpCreateCheckIn CheckIn
  | OpCreateBusiness Business
  | OpClearAll Date

fun applyOp :: "StoreOp \<Rightarrow> DataStore \<Rightarrow> DataStore" where
  "applyOp (OpCreateUser u) s = snd (createUser u s)"
| "applyOp (OpUpdateUser now i p) s = snd (updateUser now i p s)"
| "applyOp (OpCreateCard c) s = snd (createCard c s)"
| "applyOp (OpUpdateCard now i p) s = snd (updateCard now i p s)"
| "applyOp (OpDeleteCard i) s = snd (deleteCard i s)"
| "applyOp (OpAddCardToUser uc) s = snd (addCardToUser uc s)"
| "applyOp (OpUpdateUserCard userId cardId p) s = snd (updateUserCard userId cardId p s)"
| "applyOp (OpRemoveCardFromUser userId cardId) s = snd (removeCardFromUser userId cardId s)"
| "applyOp (OpCreateCheckIn c) s = snd (createCheckIn c s)"
| "applyOp (OpCreateBusiness b) s = snd (createBusiness b s)"
| "applyOp (OpClearAll now) s = clearAll now s"

fun isClearAll :: "StoreOp \<Rightarrow> bool" where
  "isClearAll (OpClearAll now) = True"
| "isClearAll _ = False"

section \<open>Analytics routes (backend/src/routes/analytics.ts)\<close>

text \<open>
  \<open>formatDate\<close> cuts the ISO string of a date at the \<open>T\<close>: the UTC calendar day. The day is
  represented by its number, the time value divided by the 86 400 000 milliseconds of a
  day and rounded down; two dates have the same \<open>YYYY-MM-DD\<close> string exactly when they have
  the same day number, and for four-digit years \<open>localeCompare\<close> orders the strings as
  \<open>\<le>\<close> orders the numbers.
\<close>

definition formatDate :: "Date \<Rightarrow> int" where
  "formatDate d = d div 86400000"

text \<open>
  \<open>parseInt(q) || d\<close>: \<open>None\<close> is the \<open>NaN\<close> of a missing or unreadable parameter; \<open>NaN\<close> and
  0 are falsy.
\<close>

definition parseIntOr :: "int option \<Rightarrow> int \<Rightarrow> int" where
  "parseIntOr q d = (case q of None \<Rightarrow> d | Some n \<Rightarrow> if n = 0 then d else n)"

text \<open>\<open>Array.prototype.slice(0, end)\<close>: a negative \<open>end\<close> counts from the end of the array.\<close>

definition slice0 :: "int \<Rightarrow> 'a list \<Rightarrow> 'a list" where
  "slice0 e xs =
     (let len = int (length xs);
          final = (if e < 0 then max (len + e) 0 else min e len)
      in take (nat final) xs)"

text \<open>
  \<open>.sort((a, b) => b.points - a.points)\<close>: \<open>Array.prototype.sort\<close> is stable, so this is the
  stable sort on the key \<open>- points\<close>.
\<close>

definition sortByPointsDesc :: "User list \<Rightarrow> User list" where
  "sortByPointsDesc us = sort_key (\<lambda>u. - u_points u) us"

record UserLeaderboard =
  lb_userId :: string
  lb_userName :: string
  lb_userEmail :: string
  lb_points :: int
  lb_rank :: nat

text \<open>\<open>.map((user, index) => ({ ..., rank: index + 1 }))\<close>\<close>

definition leaderboardEntry :: "nat \<Rightarrow> User \<Rightarrow> UserLeaderboard" where
  "leaderboardEntry index user =
     \<lparr>lb_userId = u_id user, lb_userName = u_name user, lb_userEmail = u_email user,
      lb_points = u_points user, lb_rank = index + 1\<rparr>"

definition toLeaderboard :: "User list \<Rightarrow> UserLeaderboard list" where
  "toLeaderboard us = map (\<lambda>(index, user). leaderboardEntry index user) (enumerate 0 us)"

text \<open>\<open>GET /analytics/leaderboard\<close>; \<open>q\<close> is \<open>parseInt(req.query.limit)\<close>.\<close>

definition leaderboard :: "int option \<Rightarrow> DataStore \<Rightarrow> UserLeaderboard list" where
  "leaderboard q s =
     (let limit = parseIntOr q 10;
          allUsers = getAllUsers s
      in toLeaderboard (slice0 limit (sortByPointsDesc (filter (\<lambda>u. u_role u = RUser) allUsers))))"

text \<open>The \<open>topUsers\<close> and \<open>totalUsers\<close> and \<open>activeUsers\<close> fields of \<open>GET /analytics/overview\<close>.\<close>

definition overview_topUsers :: "DataStore \<Rightarrow> UserLeaderboard list" where
  "overview_topUsers s =
     toLeaderboard (slice0 10 (sortByPointsDesc (filter (\<lambda>u. u_role u = RUser) (getAllUsers s))))"

definition overview_totalUsers :: "DataStore \<Rightarrow> nat" where
  "overview_totalUsers s = length (filter (\<lambda>u. u_role u = RUser) (getAllUsers s))"

text \<open>\<open>new Set(xs).size\<close>\<close>

definition Set_size :: "'a list \<Rightarrow> nat" where
  "Set_size xs = length (remdups xs)"

definition overview_activeUsers :: "Date \<Rightarrow> DataStore \<Rightarrow> nat" where
  "overview_activeUsers thirtyDaysAgo s =
     Set_size (map ci_userId (filter (\<lambda>ci. ci_timestamp ci \<ge> thirtyDaysAgo) (getAllCheckIns s)))"

text \<open>
  Averages are JavaScript numbers that are not integers. They are modelled as exact
  rationals: \<open>Math.round\<close> rounds to the nearest integer, halves upwards.
\<close>

definition Math_round :: "rat \<Rightarrow> int" where
  "Math_round x = \<lfloor>x + 1 / 2\<rfloor>"

definition roundTenth :: "rat \<Rightarrow> rat" where
  "roundTenth x = of_int (Math_round (x * 10)) / 10"

record CardStats =
  st_totalCheckIns :: nat
  st_uniqueUsers :: nat
  st_avgCheckInsPerUser :: rat
  st_last7Days :: nat
  st_totalPointsEarned :: int

text \<open>
  \<open>GET /analytics/cards\<close>. The callback of \<open>cards.map\<close> reads the clock anew for every card:
  \<open>sevenDaysAgo i\<close> is the date it computes for the card at index \<open>i\<close>.
\<close>

definition cardStatsOf :: "Date \<Rightarrow> CheckIn list \<Rightarrow> Card \<Rightarrow> CardStats" where
  "cardStatsOf sevenDaysAgo allCheckIns crd =
     (let cardCheckIns = filter (\<lambda>ci. ci_cardId ci = c_id crd) allCheckIns;
          uniqueUsers = Set_size (map ci_userId cardCheckIns);
          avgCheckInsPerUser =
            (if uniqueUsers > 0 then of_nat (length cardCheckIns) / of_nat uniqueUsers else 0);
          recentCheckIns = filter (\<lambda>ci. ci_timestamp ci \<ge> sevenDaysAgo) cardCheckIns
      in \<lparr>st_totalCheckIns = length cardCheckIns,
          st_uniqueUsers = uniqueUsers,
          st_avgCheckInsPerUser = roundTenth avgCheckInsPerUser,
          st_last7Days = length recentCheckIns,
          st_totalPointsEarned = foldl (\<lambda>sum ci. sum + ci_pointsEarned ci) 0 cardCheckIns\<rparr>)"

definition cardAnalytics :: "(nat \<Rightarrow> Date) \<Rightarrow> DataStore \<Rightarrow> (Card \<times> CardStats) list" where
  "cardAnalytics sevenDaysAgo s =
     (let allCards = getAllCards s;
          allCheckIns = getAllCheckIns s
      in map (\<lambda>(i, crd). (crd, cardStatsOf (sevenDaysAgo i) allCheckIns crd)) (enumerate 0 allCards))"

record UserActivity =
  ua_totalUsers :: nat
  ua_usersWithCheckIns :: nat
  ua_activeLastWeek :: nat
  ua_activeLastMonth :: nat
  ua_avgCheckInsPerUser :: rat

text \<open>\<open>GET /analytics/user-activity\<close>; \<open>now\<close> is the one \<open>new Date()\<close> of the handler.\<close>

definition userActivity :: "Date \<Rightarrow> DataStore \<Rightarrow> UserActivity" where
  "userActivity now s =
     (let roleUsers = filter (\<lambda>u. u_role u = RUser) (getAllUsers s);
          allCheckIns = getAllCheckIns s;
          last7Days = now - 7 * 24 * 60 * 60 * 1000;
          last30Days = now - 30 * 24 * 60 * 60 * 1000
      in \<lparr>ua_totalUsers = length roleUsers,
          ua_usersWithCheckIns = Set_size (map ci_userId allCheckIns),
          ua_activeLastWeek =
            Set_size (map ci_userId (filter (\<lambda>ci. ci_timestamp ci \<ge> last7Days) allCheckIns)),
          ua_activeLastMonth =
            Set_size (map ci_userId (filter (\<lambda>ci. ci_timestamp ci \<ge> last30Days) allCheckIns)),
          ua_avgCheckInsPerUser =
            (if length roleUsers > 0
             then roundTenth (of_nat (length allCheckIns) / of_nat (length roleUsers))
             else 0)\<rparr>)"

record DailyEntry =
  de_date :: int
  de_total :: nat
  de_byCard :: "(string, nat) JsMap"

text \<open>\<open>card?.name || 'Unknown'\<close>: a missing card and an empty name both give \<open>'Unknown'\<close>.\<close>

definition cardNameOrUnknown :: "DataStore \<Rightarrow> string \<Rightarrow> string" where
  "cardNameOrUnknown s cardId =
     (case getCardById s cardId of
        None \<Rightarrow> ''Unknown''
      | Some crd \<Rightarrow> if c_name crd = [] then ''Unknown'' else c_name crd)"

text \<open>
  One turn of the \<open>forEach\<close> of \<open>GET /analytics/daily\<close> on the map \<open>dailyByCard\<close>. The inner
  map is changed in place in the source; here it is stored back under its key, which keeps
  its position. The key is present when \<open>dailyByCard.get(dateKey)!\<close> reads it, since the
  line before has set it; the default \<open>[]\<close> of the lookup is never taken.
\<close>

definition dailyStep ::
  "DataStore \<Rightarrow> (int, (string, nat) JsMap) JsMap \<Rightarrow> CheckIn \<Rightarrow> (int, (string, nat) JsMap) JsMap" where
  "dailyStep s dailyByCard ci =
     (let dateKey = formatDate (ci_timestamp ci);
          cardName = cardNameOrUnknown s (ci_cardId ci);
          m1 = (if \<not> Map_has dailyByCard dateKey then Map_set dailyByCard dateKey [] else dailyByCard);
          dayMap = orElse (Map_get m1 dateKey) [];
          dayMap' = Map_set dayMap cardName (orElse (Map_get dayMap cardName) 0 + 1)
      in Map_set m1 dateKey dayMap')"

text \<open>
  \<open>GET /analytics/daily\<close> from the range on: \<open>startDate\<close> and \<open>endDate\<close> are the two dates that
  \<open>getDateRange\<close> returns. The result has one entry per key of \<open>dailyByCard\<close>, sorted by date;
  \<open>de_byCard\<close> holds the entries from which \<open>Object.fromEntries\<close> builds the \<open>byCard\<close> object.
\<close>

definition dailyTrend :: "Date \<Rightarrow> Date \<Rightarrow> DataStore \<Rightarrow> DailyEntry list" where
  "dailyTrend startDate endDate s =
     (let rangeCheckIns = getCheckInsInDateRange s startDate endDate;
          dailyByCard = foldl (dailyStep s) [] rangeCheckIns;
          result = map (\<lambda>(date, byCard).
                          \<lparr>de_date = date,
                           de_total = foldl (\<lambda>sum count. sum + count) 0 (map snd byCard),
                           de_byCard = byCard\<rparr>)
                       dailyByCard
      in sort_key de_date result)"

text \<open>The check-in object that the handler of \<open>POST /checkins\<close> builds and pushes.\<close>

definition newCheckIn :: "CheckInEnv \<Rightarrow> JwtPayload \<Rightarrow> CheckInRequest \<Rightarrow> Card \<Rightarrow> CheckIn" where
  "newCheckIn env ru body crd =
     \<lparr>ci_id = env_uuid env, ci_userId = jwt_userId ru, ci_cardId = rq_cardId body,
      ci_businessId = c_businessId crd,
      ci_pointsEarned = calculatePoints (rq_cardId body) (jwt_userId ru),
      ci_timestamp = env_nowEvent env,
      ci_location = rq_location body, ci_metadata = rq_metadata body\<rparr>"

section \<open>Runs of the routes that write to the store\<close>

datatype RemoveCardError = RemoveNotAuthenticated | RemoveNotInWallet

text \<open>\<open>DELETE /cards/:id/remove\<close>\<close>

definition deleteRemoveCard ::
  "JwtPayload option \<Rightarrow> string \<Rightarrow> DataStore \<Rightarrow> (RemoveCardError + unit) \<times> DataStore" where
  "deleteRemoveCard reqUser paramId s =
     (case reqUser of
        None \<Rightarrow> (Inl RemoveNotAuthenticated, s)
      | Some ru \<Rightarrow>
          (case removeCardFromUser (jwt_userId ru) paramId s of
             (removed, s') \<Rightarrow> if \<not> removed then (Inl RemoveNotInWallet, s') else (Inr (), s')))"

text \<open>
  A request that can change the store, with what it takes from outside the store. The
  routes \<open>POST /cards\<close>, \<open>PUT /cards/:id\<close> and \<open>DELETE /cards/:id\<close> call, when their own checks
  pass, the store's \<open>createCard\<close>, \<open>updateCard\<close> and \<open>deleteCard\<close> and nothing else of the
  store that writes; they stand here as these calls. All other routes only read.
\<close>

datatype Request =
    RegisterR string string Date Date string string Role
  | AddCardR string Date "JwtPayload option" string
  | RemoveCardR "JwtPayload option" string
  | CheckInR CheckInEnv "JwtPayload option" CheckInRequest
  | CreateCardR Card
  | UpdateCardR Date string PartialCard
  | DeleteCardR string

fun serve :: "(string \<Rightarrow> bool) \<Rightarrow> Request \<Rightarrow> DataStore \<Rightarrow> DataStore" where
  "serve isUuid (RegisterR uuid hashed nowC nowU email nm role) s =
     snd (postRegister uuid hashed nowC nowU email nm role s)"
| "serve isUuid (AddCardR uuid now reqUser paramId) s = snd (postAddCard uuid now reqUser paramId s)"
| "serve isUuid (RemoveCardR reqUser paramId) s = snd (deleteRemoveCard reqUser paramId s)"
| "serve isUuid (CheckInR env reqUser body) s = snd (postCheckIn isUuid env reqUser body s)"
| "serve isUuid (CreateCardR crd) s = snd (createCard crd s)"
| "serve isUuid (UpdateCardR now i updates) s = snd (updateCard now i updates s)"
| "serve isUuid (DeleteCardR i) s = snd (deleteCard i s)"

definition serveAll :: "(string \<Rightarrow> bool) \<Rightarrow> Request list \<Rightarrow> DataStore \<Rightarrow> DataStore" where
  "serveAll isUuid reqs s = fold (serve isUuid) reqs s"

text \<open>The readings of the clock that a request brings along, in the order of their use.\<close>

fun clockReadings :: "Request \<Rightarrow> Date list" where
  "clockReadings (RegisterR uuid hashed nowC nowU email nm role) = [nowC, nowU]"
| "clockReadings (AddCardR uuid now reqUser paramId) = [now]"
| "clockReadings (RemoveCardR reqUser paramId) = []"
| "clockReadings (CheckInR env reqUser body) = [env_nowEvent env, env_nowUser env, env_nowCard env]"
| "clockReadings (CreateCardR crd) = [c_createdAt crd, c_updatedAt crd]"
| "clockReadings (UpdateCardR now i updates) = [now]"
| "clockReadings (DeleteCardR i) = []"

text \<open>
  No date in the wallet entries and in the log is later than \<open>t\<close>: every \<open>lastCheckIn\<close>
  that is set and every event's \<open>timestamp\<close> is at most \<open>t\<close>.
\<close>

definition stampedBy :: "Date \<Rightarrow> DataStore \<Rightarrow> bool" where
  "stampedBy t s =
     (list_all (\<lambda>uc. case uc_lastCheckIn uc of None \<Rightarrow> True | Some l \<Rightarrow> l \<le> t)
        (Map_values (userCards s))
      \<and> list_all (\<lambda>c. ci_timestamp c \<le> t) (checkIns s))"

section \<open>Sample data\<close>

text \<open>
  Concrete identifiers, records and stores on which the theorems below are instantiated.
  \<open>uuidShape\<close> stands in for zod's \<open>uuid()\<close> test there: 36 characters, hexadecimal
  digits in groups of 8, 4, 4, 4 and 12 with hyphens between them.
\<close>

definition hexDigit :: "char \<Rightarrow> bool" where
  "hexDigit c = (c \<in> set ''0123456789abcdefABCDEF'')"

definition uuidShape :: "string \<Rightarrow> bool" where
  "uuidShape x =
     (length x = 36
      \<and> list_all hexDigit (take 8 x) \<and> x ! 8 = CHR ''-''
      \<and> list_all hexDigit (take 4 (drop 9 x)) \<and> x ! 13 = CHR ''-''
      \<and> list_all hexDigit (take 4 (drop 14 x)) \<and> x ! 18 = CHR ''-''
      \<and> list_all hexDigit (take 4 (drop 19 x)) \<and> x ! 23 = CHR ''-''
      \<and> list_all hexDigit (drop 24 x))"

definition aliceId :: string where
  "aliceId = ''7c9e6679-7425-40de-944b-e07fc1f90ae7''"

definition bobId :: string where
  "bobId = ''1b4e28ba-2fa1-41d2-883f-0016d3cca427''"

definition ghostId :: string where
  "ghostId = ''9a0b1c2d-3e4f-4a5b-8c6d-7e8f9a0b1c2d''"

definition carolId :: string where
  "carolId = ''2c1e8f5a-6b7d-4c8e-9f0a-1b2c3d4e5f60''"

definition adminId :: string where
  "adminId = ''3f2504e0-4f89-41d3-9a0c-0305e82c3301''"

definition coffeeId :: string where
  "coffeeId = ''0e37df36-f698-41e5-8e1c-4b2f6a1c9d10''"

definition gymId :: string where
  "gymId = ''5a1d2c3b-4e5f-4a6b-9c7d-8e9f0a1b2c3d''"

definition vipId :: string where
  "vipId = ''c56a4180-65aa-42ec-a945-5fd21dec0538''"

definition unknownId :: string where
  "unknownId = ''6ba7b810-9dad-41d1-80b4-00c04fd430c8''"

definition mkUser :: "string \<Rightarrow> string \<Rightarrow> Role \<Rightarrow> int \<Rightarrow> Date \<Rightarrow> User" where
  "mkUser i nm role pts created =
     \<lparr>u_id = i, u_email = nm @ ''@example.com'', u_password = ''$2b$10$hash'', u_name = nm,
      u_role = role, u_points = pts, u_createdAt = created, u_updatedAt = created\<rparr>"

definition mkCard :: "string \<Rightarrow> string \<Rightarrow> bool \<Rightarrow> Card" where
  "mkCard i nm active =
     \<lparr>c_id = i, c_businessId = ''business-1'', c_name = nm, c_description = None,
      c_logo = None, c_backgroundColor = Some ''#4ECDC4'', c_isActive = active,
      c_metadata = None, c_createdAt = 1000, c_updatedAt = 1000\<rparr>"

definition mkUserCard :: "string \<Rightarrow> string \<Rightarrow> Date \<Rightarrow> Date option \<Rightarrow> UserCard" where
  "mkUserCard userId cardId added lastC =
     \<lparr>uc_id = ''uc-'' @ userId, uc_userId = userId, uc_cardId = cardId,
      uc_addedAt = added, uc_lastCheckIn = lastC\<rparr>"

definition mkCheckIn :: "string \<Rightarrow> string \<Rightarrow> string \<Rightarrow> Date \<Rightarrow> CheckIn" where
  "mkCheckIn i userId cardId t =
     \<lparr>ci_id = i, ci_userId = userId, ci_cardId = cardId, ci_businessId = ''business-1'',
      ci_pointsEarned = 10, ci_timestamp = t, ci_location = None, ci_metadata = None\<rparr>"

definition mkBody :: "string \<Rightarrow> CheckInRequest" where
  "mkBody cardId = \<lparr>rq_cardId = cardId, rq_location = None, rq_metadata = None\<rparr>"

definition mkJwt :: "string \<Rightarrow> string \<Rightarrow> JwtPayload" where
  "mkJwt userId role = \<lparr>jwt_userId = userId, jwt_email = ''someone@example.com'', jwt_role = role\<rparr>"

definition mkEnv :: "string \<Rightarrow> Date \<Rightarrow> Date \<Rightarrow> Date \<Rightarrow> CheckInEnv" where
  "mkEnv i t1 t2 t3 = \<lparr>env_uuid = i, env_nowEvent = t1, env_nowUser = t2, env_nowCard = t3\<rparr>"

text \<open>
  Alice is registered with no points and holds the coffee card; the gym card is inactive,
  the VIP card is active and in nobody's wallet.
\<close>

definition sampleStore :: DataStore where
  "sampleStore =
     \<lparr>users = [(aliceId, mkUser aliceId ''alice'' RUser 0 2000)],
      cards = [(coffeeId, mkCard coffeeId ''Coffee'' True),
               (gymId, mkCard gymId ''Gym'' False),
               (vipId, mkCard vipId ''VIP'' True)],
      userCards = [(userCardKey aliceId coffeeId, mkUserCard aliceId coffeeId 3000 None)],
      checkIns = [],
      businesses = []\<rparr>"

text \<open>
  The store as the constructor of \<open>DataStore\<close> leaves it: the demo business and the demo
  cards \<open>card-1\<close>, \<open>card-2\<close>, \<open>card-3\<close>, all active.
\<close>

definition demoStore :: DataStore where
  "demoStore = initializeMockData 1000 emptyStore"

text \<open>
  Two registrations on an empty store, between which the clock was set back: Bob registers
  first, at 2600, Carol second, at 2500.
\<close>

definition tieStore :: DataStore where
  "tieStore =
     snd (postRegister carolId ''$2b$10$hashC'' 2500 2500 ''carol@example.com'' ''carol'' RUser
       (snd (postRegister bobId ''$2b$10$hashB'' 2600 2600 ''bob@example.com'' ''bob'' RUser
          emptyStore)))"

text \<open>
  A store with history: Alice has checked in twice, Bob and Carol once, and so has the
  administrator; all on the coffee card, on the days 1, 3 and 4 after the epoch.
\<close>

definition day :: int where
  "day = 86400000"

definition busyStore :: DataStore where
  "busyStore =
     \<lparr>users = [(aliceId, mkUser aliceId ''alice'' RUser 20 2000),
               (bobId, mkUser bobId ''bob'' RUser 10 2500),
               (carolId, mkUser carolId ''carol'' RUser 10 2600),
               (adminId, mkUser adminId ''root'' RAdmin 10 1500)],
      cards = [(coffeeId, mkCard coffeeId ''Coffee'' True),
               (gymId, mkCard gymId ''Gym'' False)],
      userCards = [(userCardKey aliceId coffeeId, mkUserCard aliceId coffeeId 3000 (Some (3 * day + 5))),
                   (userCardKey bobId coffeeId, mkUserCard bobId coffeeId 3000 (Some (day + 7200000))),
                   (userCardKey carolId coffeeId, mkUserCard carolId coffeeId 3000 (Some (3 * day + 3600000))),
                   (userCardKey adminId coffeeId, mkUserCard adminId coffeeId 3000 (Some (4 * day)))],
      checkIns = [mkCheckIn ''c1'' aliceId coffeeId (day + 3600000),
                  mkCheckIn ''c2'' bobId coffeeId (day + 7200000),
                  mkCheckIn ''c3'' aliceId coffeeId (3 * day + 5),
                  mkCheckIn ''c4'' carolId coffeeId (3 * day + 3600000),
                  mkCheckIn ''c5'' adminId coffeeId (4 * day)],
      businesses = []\<rparr>"

text \<open>The same store with the users inserted in another order: the leader last.\<close>

definition lateLeaderStore :: DataStore where
  "lateLeaderStore =
     busyStore\<lparr>users := [(bobId, mkUser bobId ''bob'' RUser 10 2500),
                         (carolId, mkUser carolId ''carol'' RUser 10 2600),
                         (adminId, mkUser adminId ''root'' RAdmin 30 1500),
                         (aliceId, mkUser aliceId ''alice'' RUser 20 2700)]\<rparr>"

text \<open>
  The holder of a token for an identifier that is not in \<open>users\<close> (the store is in memory
  and starts empty, a token lives for days) adds the coffee card to a wallet.
\<close>

definition ghostStore :: DataStore where
  "ghostStore = snd (postAddCard ''w-1'' 4000 (Some (mkJwt ghostId ''user'')) coffeeId sampleStore)"

section \<open>Basic facts about the store\<close>

lemmas sample_defs = sampleStore_def aliceId_def bobId_def carolId_def ghostId_def adminId_def coffeeId_def
  gymId_def vipId_def unknownId_def mkUser_def mkCard_def mkUserCard_def mkCheckIn_def mkBody_def
  mkJwt_def mkEnv_def uuidShape_def hexDigit_def userCardKey_def

lemma Map_get_Map_set:
  "Map_get (Map_set m k v) k' = (if k' = k then Some v else Map_get m k')"
  by (induction m) (auto simp: Map_get_def)

lemma Map_set_keys_present:
  "Map_get m k = Some v0 \<Longrightarrow> map fst (Map_set m k v) = map fst m"
  by (induction m) (auto simp: Map_get_def split: if_splits)

lemma spreadUser_points:
  "spreadUser u (noUserUpdates\<lparr>pu_points := Some n\<rparr>) = u\<lparr>u_points := n\<rparr>"
  by (simp add: spreadUser_def noUserUpdates_def orElse_def)

lemma spreadUserCard_lastCheckIn:
  "spreadUserCard uc (noUserCardUpdates\<lparr>puc_lastCheckIn := Some t\<rparr>) = uc\<lparr>uc_lastCheckIn := Some t\<rparr>"
  by (simp add: spreadUserCard_def noUserCardUpdates_def orElse_def orElseOpt_def)

section \<open>The check-in handler, path by path\<close>

lemma checkInSchema_parse_Some:
  "checkInSchema_parse isUuid body = Some body \<longleftrightarrow> isUuid (rq_cardId body)"
  by (simp add: checkInSchema_parse_def)

lemma postCheckIn_success:
  assumes "checkInSchema_parse isUuid body = Some body"
    and "getCardById s (rq_cardId body) = Some crd" and "c_isActive crd"
    and "getUserCard s (jwt_userId ru) (rq_cardId body) = Some uc"
    and "getUserById s (jwt_userId ru) = Some u"
  shows "postCheckIn isUuid env (Some ru) body s =
    (Inr \<lparr>rs_checkIn = newCheckIn env ru body crd,
          rs_totalPoints = u_points u + 10,
          rs_message = ''Check-in successful! You earned '' @ showInt 10 @ '' points.''\<rparr>,
     s\<lparr>checkIns := checkIns s @ [newCheckIn env ru body crd],
       users := Map_set (users s) (jwt_userId ru)
                  (u\<lparr>u_points := u_points u + 10, u_updatedAt := env_nowUser env\<rparr>),
       userCards := Map_set (userCards s) (userCardKey (jwt_userId ru) (rq_cardId body))
                      (uc\<lparr>uc_lastCheckIn := Some (env_nowCard env)\<rparr>)\<rparr>)"
  using assms
  by (simp add: postCheckIn_def calculatePoints_def createCheckIn_def
      getUserById_def getCardById_def getUserCard_def updateUser_def updateUserCard_def
      spreadUser_points spreadUserCard_lastCheckIn Let_def newCheckIn_def calculatePoints_def)

lemma postCheckIn_userNotFound:
  assumes "checkInSchema_parse isUuid body = Some body"
    and "getCardById s (rq_cardId body) = Some crd" and "c_isActive crd"
    and "getUserCard s (jwt_userId ru) (rq_cardId body) = Some uc"
    and "getUserById s (jwt_userId ru) = None"
  shows "postCheckIn isUuid env (Some ru) body s =
    (Inl UserNotFound, s\<lparr>checkIns := checkIns s @ [newCheckIn env ru body crd]\<rparr>)"
  using assms
  by (simp add: postCheckIn_def calculatePoints_def createCheckIn_def
      getUserById_def getCardById_def getUserCard_def Let_def newCheckIn_def calculatePoints_def)

lemma postCheckIn_cases:
  "(\<exists>e. postCheckIn isUuid env reqUser body s = (Inl e, s) \<and> e \<noteq> UserNotFound)
   \<or> (\<exists>ru crd uc. reqUser = Some ru \<and> checkInSchema_parse isUuid body = Some body
         \<and> getCardById s (rq_cardId body) = Some crd \<and> c_isActive crd
         \<and> getUserCard s (jwt_userId ru) (rq_cardId body) = Some uc)"
  by (auto simp: postCheckIn_def checkInSchema_parse_def split: option.splits)

lemma postCheckIn_success_state:
  assumes "checkInSchema_parse isUuid body = Some body"
    and "getCardById s (rq_cardId body) = Some crd" and "c_isActive crd"
    and "getUserCard s (jwt_userId ru) (rq_cardId body) = Some uc"
    and "getUserById s (jwt_userId ru) = Some u"
  shows "\<exists>resp s'. postCheckIn isUuid env (Some ru) body s = (Inr resp, s')
      \<and> rs_checkIn resp = newCheckIn env ru body crd
      \<and> rs_totalPoints resp = u_points u + 10
      \<and> checkIns s' = checkIns s @ [newCheckIn env ru body crd]
      \<and> getUserById s' (jwt_userId ru)
           = Some (u\<lparr>u_points := u_points u + 10, u_updatedAt := env_nowUser env\<rparr>)
      \<and> getCardById s' (rq_cardId body) = Some crd
      \<and> getUserCard s' (jwt_userId ru) (rq_cardId body)
           = Some (uc\<lparr>uc_lastCheckIn := Some (env_nowCard env)\<rparr>)"
  by (simp add: postCheckIn_success [OF assms] getUserById_def getCardById_def getUserCard_def
      Map_get_Map_set assms(2) [unfolded getCardById_def])

lemma postCheckIn_Inr_D:
  assumes "postCheckIn isUuid env reqUser body s = (Inr resp, s')"
  shows "\<exists>ru crd uc u. reqUser = Some ru \<and> checkInSchema_parse isUuid body = Some body
         \<and> getCardById s (rq_cardId body) = Some crd \<and> c_isActive crd
         \<and> getUserCard s (jwt_userId ru) (rq_cardId body) = Some uc
         \<and> getUserById s (jwt_userId ru) = Some u"
  using assms
  by (auto simp: postCheckIn_def checkInSchema_parse_def Let_def createCheckIn_def
      getUserById_def split: option.splits if_splits)

lemma postCheckIn_appends:
  "checkIns (snd (postCheckIn isUuid env reqUser body s)) = checkIns s
   \<or> (\<exists>ev. checkIns (snd (postCheckIn isUuid env reqUser body s)) = checkIns s @ [ev]
          \<and> ci_pointsEarned ev = 10)"
  by (auto simp: postCheckIn_def checkInSchema_parse_def Let_def createCheckIn_def
      calculatePoints_def updateUser_def updateUserCard_def getUserById_def
      split: option.splits if_splits)

section \<open>C2: failed validation leaves the store alone\<close>

text \<open>
  Claim C2 says that a check-in for an unknown card id fails with \<open>CardNotFound\<close> and one
  for a card that is not in the wallet with \<open>NotInWallet\<close>. The handler parses the body
  first, and the schema wants the card id to be a UUID: for the demo card \<open>card-1\<close>, which
  the store holds, active and in no wallet, and for the unknown \<open>card-9\<close> the answer is 400
  \<open>Validation failed\<close>.
\<close>

theorem postCheckIn_rejects_card_id_by_shape:
  "map_option c_isActive (getCardById demoStore ''card-1'') = Some True
   \<and> getUserCard demoStore aliceId ''card-1'' = None
   \<and> postCheckIn uuidShape (mkEnv ''e1'' 5000 5001 5002) (Some (mkJwt aliceId ''user''))
        (mkBody ''card-1'') demoStore
       = (Inl ValidationFailed, demoStore)
   \<and> getCardById demoStore ''card-9'' = None
   \<and> postCheckIn uuidShape (mkEnv ''e1'' 5000 5001 5002) (Some (mkJwt aliceId ''user''))
        (mkBody ''card-9'') demoStore
       = (Inl ValidationFailed, demoStore)"
proof -
  have cards: "cards demoStore
      = [(''card-1'', demoCard 1000 ''card-1'' ''Coffee Loyalty Card'' ''Buy 10 coffees, get 1 free!''
               ''coffee'' ''#6F4E37''),
         (''card-2'', demoCard 1000 ''card-2'' ''Gym Membership'' ''Track your gym visits and earn rewards''
               ''muscle'' ''#FF6B6B''),
         (''card-3'', demoCard 1000 ''card-3'' ''VIP Access Pass'' ''Exclusive access to premium events''
               ''star'' ''#4ECDC4'')]"
    and wallet: "userCards demoStore = []"
    by (simp_all add: demoStore_def initializeMockData_def emptyStore_def createBusiness_def
        createCard_def demoCard_def Let_def)
  have a: "map_option c_isActive (getCardById demoStore ''card-1'') = Some True"
    by (simp add: getCardById_def Map_get_def cards demoCard_def)
  have w: "getUserCard demoStore aliceId ''card-1'' = None"
    by (simp add: getUserCard_def Map_get_def wallet)
  have n: "getCardById demoStore ''card-9'' = None"
    by (simp add: getCardById_def Map_get_def cards)
  have v: "\<not> uuidShape ''card-1''" "\<not> uuidShape ''card-9''"
    by (simp_all add: uuidShape_def)
  have r: "postCheckIn uuidShape (mkEnv ''e1'' 5000 5001 5002) (Some (mkJwt aliceId ''user''))
        (mkBody c) demoStore = (Inl ValidationFailed, demoStore)" if "\<not> uuidShape c" for c
    using that by (simp add: postCheckIn_def checkInSchema_parse_def mkBody_def)
  from a w n r [OF v(1)] r [OF v(2)] show ?thesis
    by (intro conjI)
qed

text \<open>
  Claim C2, amended. The check-in handler answers 401 without a principal and 400
  \<open>Validation failed\<close> when the body's card id is not a UUID, before it looks anything up.
  For an authenticated request whose card id is a UUID it answers \<open>CardNotFound\<close> (404) when
  the card id is unknown, \<open>CardNotActive\<close> (400) when the card is known and its \<open>isActive\<close>
  is false, and \<open>CardNotInWallet\<close> (400) when the card is known and active and the store
  has no wallet entry for the user and the card. On every one of these exits, and on every
  failure other than \<open>User not found\<close>, the store that comes back is the store that went
  in: no event is appended, no balance and no wallet entry changes.
\<close>

theorem postCheckIn_validation_failure:
  "postCheckIn isUuid env None body s = (Inl NotAuthenticated, s)
   \<and> (\<not> isUuid (rq_cardId body) \<longrightarrow>
         postCheckIn isUuid env (Some ru) body s = (Inl ValidationFailed, s))
   \<and> (isUuid (rq_cardId body) \<and> getCardById s (rq_cardId body) = None \<longrightarrow>
         postCheckIn isUuid env (Some ru) body s = (Inl CardNotFound, s))
   \<and> (\<forall>crd. isUuid (rq_cardId body) \<and> getCardById s (rq_cardId body) = Some crd
              \<and> \<not> c_isActive crd \<longrightarrow>
         postCheckIn isUuid env (Some ru) body s = (Inl CardNotActive, s))
   \<and> (\<forall>crd. isUuid (rq_cardId body) \<and> getCardById s (rq_cardId body) = Some crd
              \<and> c_isActive crd \<and> getUserCard s (jwt_userId ru) (rq_cardId body) = None \<longrightarrow>
         postCheckIn isUuid env (Some ru) body s = (Inl CardNotInWallet, s))
   \<and> (\<forall>e. fst (postCheckIn isUuid env reqUser body s) = Inl e \<and> e \<noteq> UserNotFound \<longrightarrow>
         snd (postCheckIn isUuid env reqUser body s) = s)"
proof (intro conjI allI impI)
  fix e assume e: "fst (postCheckIn isUuid env reqUser body s) = Inl e \<and> e \<noteq> UserNotFound"
  from postCheckIn_cases [of isUuid env reqUser body s]
  consider (fail) e' where "postCheckIn isUuid env reqUser body s = (Inl e', s)"
    | (run) ru crd uc where "reqUser = Some ru" "checkInSchema_parse isUuid body = Some body"
        "getCardById s (rq_cardId body) = Some crd" "c_isActive crd"
        "getUserCard s (jwt_userId ru) (rq_cardId body) = Some uc"
    by blast
  then show "snd (postCheckIn isUuid env reqUser body s) = s"
  proof cases
    case fail
    then show ?thesis by simp
  next
    case run
    show ?thesis
    proof (cases "getUserById s (jwt_userId ru)")
      case None
      from postCheckIn_userNotFound [OF run(2-5) None, of env] run(1) e show ?thesis
        by auto
    next
      case (Some u)
      from postCheckIn_success [OF run(2-5) Some, of env] run(1) e show ?thesis
        by auto
    qed
  qed
qed (simp_all add: postCheckIn_def checkInSchema_parse_def)

theorem postCheckIn_validation_failure_witness:
  "\<not> uuidShape (rq_cardId (mkBody ''card-1''))
   \<and> postCheckIn uuidShape (mkEnv ''e1'' 5000 5001 5002) (Some (mkJwt aliceId ''user''))
        (mkBody ''card-1'') sampleStore
       = (Inl ValidationFailed, sampleStore)
   \<and> uuidShape (rq_cardId (mkBody unknownId)) \<and> getCardById sampleStore unknownId = None
   \<and> postCheckIn uuidShape (mkEnv ''e1'' 5000 5001 5002) (Some (mkJwt aliceId ''user''))
        (mkBody unknownId) sampleStore
       = (Inl CardNotFound, sampleStore)
   \<and> getCardById sampleStore gymId = Some (mkCard gymId ''Gym'' False)
   \<and> postCheckIn uuidShape (mkEnv ''e1'' 5000 5001 5002) (Some (mkJwt aliceId ''user''))
        (mkBody gymId) sampleStore
       = (Inl CardNotActive, sampleStore)
   \<and> getCardById sampleStore vipId = Some (mkCard vipId ''VIP'' True)
   \<and> getUserCard sampleStore aliceId vipId = None
   \<and> postCheckIn uuidShape (mkEnv ''e1'' 5000 5001 5002) (Some (mkJwt aliceId ''user''))
        (mkBody vipId) sampleStore
       = (Inl CardNotInWallet, sampleStore)
   \<and> fst (postCheckIn uuidShape (mkEnv ''e1'' 5000 5001 5002) (Some (mkJwt aliceId ''user''))
        (mkBody vipId) sampleStore) = Inl CardNotInWallet
   \<and> snd (postCheckIn uuidShape (mkEnv ''e1'' 5000 5001 5002) (Some (mkJwt aliceId ''user''))
        (mkBody vipId) sampleStore) = sampleStore"
proof -
  have u0: "\<not> uuidShape (rq_cardId (mkBody ''card-1''))"
   and u1: "uuidShape (rq_cardId (mkBody unknownId))"
   and u2: "uuidShape (rq_cardId (mkBody gymId))"
   and u3: "uuidShape (rq_cardId (mkBody vipId))"
    by (simp_all add: sample_defs)
  have c1: "getCardById sampleStore unknownId = None"
   and c2: "getCardById sampleStore gymId = Some (mkCard gymId ''Gym'' False)"
   and c3: "getCardById sampleStore vipId = Some (mkCard vipId ''VIP'' True)"
   and w3: "getUserCard sampleStore aliceId vipId = None"
    by (simp_all add: sample_defs getCardById_def getUserCard_def Map_get_def)
  have a2: "\<not> c_isActive (mkCard gymId ''Gym'' False)" and a3: "c_isActive (mkCard vipId ''VIP'' True)"
    by (simp_all add: mkCard_def)
  have b: "rq_cardId (mkBody x) = x" "jwt_userId (mkJwt y r) = y" for x y r
    by (simp_all add: mkBody_def mkJwt_def)
  note w = postCheckIn_validation_failure [where isUuid = uuidShape and s = sampleStore
      and env = "mkEnv ''e1'' 5000 5001 5002" and ru = "mkJwt aliceId ''user''"
      and reqUser = "Some (mkJwt aliceId ''user'')"]
  from w [where body = "mkBody ''card-1''"] u0
  have r0: "postCheckIn uuidShape (mkEnv ''e1'' 5000 5001 5002) (Some (mkJwt aliceId ''user''))
        (mkBody ''card-1'') sampleStore = (Inl ValidationFailed, sampleStore)"
    by blast
  from w [where body = "mkBody unknownId"] u1 c1
  have r1: "postCheckIn uuidShape (mkEnv ''e1'' 5000 5001 5002) (Some (mkJwt aliceId ''user''))
        (mkBody unknownId) sampleStore = (Inl CardNotFound, sampleStore)"
    by (simp only: b)
  from w [where body = "mkBody gymId"] u2 c2 a2
  have r2: "postCheckIn uuidShape (mkEnv ''e1'' 5000 5001 5002) (Some (mkJwt aliceId ''user''))
        (mkBody gymId) sampleStore = (Inl CardNotActive, sampleStore)"
    by (simp only: b)
  from w [where body = "mkBody vipId"] u3 c3 a3 w3
  have r3: "postCheckIn uuidShape (mkEnv ''e1'' 5000 5001 5002) (Some (mkJwt aliceId ''user''))
        (mkBody vipId) sampleStore = (Inl CardNotInWallet, sampleStore)"
    by (simp only: b)
  have f3: "fst (postCheckIn uuidShape (mkEnv ''e1'' 5000 5001 5002) (Some (mkJwt aliceId ''user''))
        (mkBody vipId) sampleStore) = Inl CardNotInWallet"
    by (simp add: r3)
  from w [where body = "mkBody vipId"] f3
  have s3: "snd (postCheckIn uuidShape (mkEnv ''e1'' 5000 5001 5002) (Some (mkJwt aliceId ''user''))
        (mkBody vipId) sampleStore) = sampleStore"
    by blast
  from u0 r0 u1 c1 r1 c2 r2 c3 w3 r3 f3 s3 show ?thesis
    by (intro conjI)
qed

section \<open>C6: the points policy\<close>

text \<open>
  Claim C6. \<open>calculatePoints\<close> is a function of its two arguments and returns 10 for all of
  them. Every call of the check-in handler appends either nothing or one event, whose
  \<open>pointsEarned\<close> is 10; on a 201 the returned \<open>totalPoints\<close> and the stored balance are the
  previous balance plus 10. A registered user with an active card in the wallet who checks
  in three times gets three 201s with totals \<open>p + 10\<close>, \<open>p + 20\<close>, \<open>p + 30\<close>, where \<open>p\<close> is
  the balance before; from balance 0 the balance is 30.
\<close>

theorem calculatePoints_fixed:
  "calculatePoints cardId userId = 10
   \<and> (checkIns (snd (postCheckIn isUuid env reqUser body s)) = checkIns s
      \<or> (\<exists>ev. checkIns (snd (postCheckIn isUuid env reqUser body s)) = checkIns s @ [ev]
             \<and> ci_pointsEarned ev = 10))
   \<and> (\<forall>resp s'. postCheckIn isUuid env reqUser body s = (Inr resp, s') \<longrightarrow>
         (\<exists>ru u. reqUser = Some ru \<and> getUserById s (jwt_userId ru) = Some u
            \<and> rs_totalPoints resp = u_points u + 10
            \<and> ci_pointsEarned (rs_checkIn resp) = 10
            \<and> map_option u_points (getUserById s' (jwt_userId ru)) = Some (u_points u + 10)))
   \<and> (isUuid (rq_cardId body) \<and> getCardById s (rq_cardId body) = Some crd \<and> c_isActive crd
        \<and> getUserCard s (jwt_userId ru) (rq_cardId body) = Some uc
        \<and> getUserById s (jwt_userId ru) = Some u \<longrightarrow>
       (\<exists>r1 s1 r2 s2 r3 s3.
           postCheckIn isUuid envA (Some ru) body s = (Inr r1, s1)
         \<and> postCheckIn isUuid envB (Some ru) body s1 = (Inr r2, s2)
         \<and> postCheckIn isUuid envC (Some ru) body s2 = (Inr r3, s3)
         \<and> rs_totalPoints r1 = u_points u + 10
         \<and> rs_totalPoints r2 = u_points u + 20
         \<and> rs_totalPoints r3 = u_points u + 30
         \<and> map_option u_points (getUserById s3 (jwt_userId ru)) = Some (u_points u + 30)))"
proof (intro conjI allI impI)
  show "calculatePoints cardId userId = 10"
    by (simp add: calculatePoints_def)
next
  show "checkIns (snd (postCheckIn isUuid env reqUser body s)) = checkIns s
      \<or> (\<exists>ev. checkIns (snd (postCheckIn isUuid env reqUser body s)) = checkIns s @ [ev]
             \<and> ci_pointsEarned ev = 10)"
    by (rule postCheckIn_appends)
next
  fix resp s'
  assume ok: "postCheckIn isUuid env reqUser body s = (Inr resp, s')"
  from postCheckIn_Inr_D [OF ok] obtain ru crd uc u where
    pre: "reqUser = Some ru" "checkInSchema_parse isUuid body = Some body"
      "getCardById s (rq_cardId body) = Some crd" "c_isActive crd"
      "getUserCard s (jwt_userId ru) (rq_cardId body) = Some uc"
      "getUserById s (jwt_userId ru) = Some u"
    by blast
  from postCheckIn_success_state [OF pre(2-6), of env] ok pre(1)
  have "rs_totalPoints resp = u_points u + 10"
    "ci_pointsEarned (rs_checkIn resp) = 10"
    "map_option u_points (getUserById s' (jwt_userId ru)) = Some (u_points u + 10)"
    by (auto simp: newCheckIn_def calculatePoints_def)
  with pre show "\<exists>ru u. reqUser = Some ru \<and> getUserById s (jwt_userId ru) = Some u
            \<and> rs_totalPoints resp = u_points u + 10
            \<and> ci_pointsEarned (rs_checkIn resp) = 10
            \<and> map_option u_points (getUserById s' (jwt_userId ru)) = Some (u_points u + 10)"
    by blast
next
  assume pre: "isUuid (rq_cardId body) \<and> getCardById s (rq_cardId body) = Some crd \<and> c_isActive crd
        \<and> getUserCard s (jwt_userId ru) (rq_cardId body) = Some uc
        \<and> getUserById s (jwt_userId ru) = Some u"
  then have p: "checkInSchema_parse isUuid body = Some body" "getCardById s (rq_cardId body) = Some crd" "c_isActive crd"
    "getUserCard s (jwt_userId ru) (rq_cardId body) = Some uc" "getUserById s (jwt_userId ru) = Some u"
    by (simp_all add: checkInSchema_parse_Some)
  from postCheckIn_success_state [OF p, of envA] obtain r1 s1 where
    st1: "postCheckIn isUuid envA (Some ru) body s = (Inr r1, s1)"
      "rs_totalPoints r1 = u_points u + 10"
      "getUserById s1 (jwt_userId ru)
           = Some (u\<lparr>u_points := u_points u + 10, u_updatedAt := env_nowUser envA\<rparr>)"
      "getCardById s1 (rq_cardId body) = Some crd"
      "getUserCard s1 (jwt_userId ru) (rq_cardId body)
           = Some (uc\<lparr>uc_lastCheckIn := Some (env_nowCard envA)\<rparr>)"
    by blast
  from postCheckIn_success_state [OF p(1) st1(4) p(3) st1(5) st1(3), of envB] obtain r2 s2 where
    st2: "postCheckIn isUuid envB (Some ru) body s1 = (Inr r2, s2)"
      "rs_totalPoints r2 = u_points u + 20"
      "getUserById s2 (jwt_userId ru)
           = Some (u\<lparr>u_points := u_points u + 20, u_updatedAt := env_nowUser envB\<rparr>)"
      "getCardById s2 (rq_cardId body) = Some crd"
      "getUserCard s2 (jwt_userId ru) (rq_cardId body)
           = Some (uc\<lparr>uc_lastCheckIn := Some (env_nowCard envB)\<rparr>)"
    by auto
  from postCheckIn_success_state [OF p(1) st2(4) p(3) st2(5) st2(3), of envC] obtain r3 s3 where
    st3: "postCheckIn isUuid envC (Some ru) body s2 = (Inr r3, s3)"
      "rs_totalPoints r3 = u_points u + 30"
      "getUserById s3 (jwt_userId ru)
           = Some (u\<lparr>u_points := u_points u + 30, u_updatedAt := env_nowUser envC\<rparr>)"
    by auto
  from st1(1,2) st2(1,2) st3
  show "\<exists>r1 s1 r2 s2 r3 s3.
           postCheckIn isUuid envA (Some ru) body s = (Inr r1, s1)
         \<and> postCheckIn isUuid envB (Some ru) body s1 = (Inr r2, s2)
         \<and> postCheckIn isUuid envC (Some ru) body s2 = (Inr r3, s3)
         \<and> rs_totalPoints r1 = u_points u + 10
         \<and> rs_totalPoints r2 = u_points u + 20
         \<and> rs_totalPoints r3 = u_points u + 30
         \<and> map_option u_points (getUserById s3 (jwt_userId ru)) = Some (u_points u + 30)"
    by auto
qed

theorem calculatePoints_fixed_witness:
  "calculatePoints coffeeId aliceId = 10
   \<and> (\<exists>r1 s1 r2 s2 r3 s3.
         postCheckIn uuidShape (mkEnv ''e1'' 5000 5001 5002) (Some (mkJwt aliceId ''user''))
            (mkBody coffeeId) sampleStore = (Inr r1, s1)
       \<and> postCheckIn uuidShape (mkEnv ''e2'' 6000 6001 6002) (Some (mkJwt aliceId ''user''))
            (mkBody coffeeId) s1 = (Inr r2, s2)
       \<and> postCheckIn uuidShape (mkEnv ''e3'' 7000 7001 7002) (Some (mkJwt aliceId ''user''))
            (mkBody coffeeId) s2 = (Inr r3, s3)
       \<and> ci_pointsEarned (rs_checkIn r1) = 10
       \<and> rs_totalPoints r1 = 10 \<and> rs_totalPoints r2 = 20 \<and> rs_totalPoints r3 = 30
       \<and> map_option u_points (getUserById s3 aliceId) = Some 30)"
proof -
  let ?ru = "mkJwt aliceId ''user''" and ?body = "mkBody coffeeId"
  let ?u = "mkUser aliceId ''alice'' RUser 0 2000"
  note T = calculatePoints_fixed [where isUuid = uuidShape and body = ?body and ru = ?ru
      and s = sampleStore and crd = "mkCard coffeeId ''Coffee'' True"
      and uc = "mkUserCard aliceId coffeeId 3000 None" and u = ?u
      and envA = "mkEnv ''e1'' 5000 5001 5002" and envB = "mkEnv ''e2'' 6000 6001 6002"
      and envC = "mkEnv ''e3'' 7000 7001 7002" and env = "mkEnv ''e1'' 5000 5001 5002"
      and reqUser = "Some ?ru" and cardId = coffeeId and userId = aliceId]
  have pre: "uuidShape (rq_cardId ?body)"
    "getCardById sampleStore (rq_cardId ?body) = Some (mkCard coffeeId ''Coffee'' True)"
    "c_isActive (mkCard coffeeId ''Coffee'' True)"
    "getUserCard sampleStore (jwt_userId ?ru) (rq_cardId ?body)
       = Some (mkUserCard aliceId coffeeId 3000 None)"
    "getUserById sampleStore (jwt_userId ?ru) = Some ?u"
    by (simp_all add: sample_defs getCardById_def getUserCard_def getUserById_def Map_get_def)
  have pts: "u_points ?u = 0" and uid: "jwt_userId ?ru = aliceId"
    by (simp_all add: mkUser_def mkJwt_def)
  from T pre obtain r1 s1 r2 s2 r3 s3 where
    run: "postCheckIn uuidShape (mkEnv ''e1'' 5000 5001 5002) (Some ?ru) ?body sampleStore = (Inr r1, s1)"
      "postCheckIn uuidShape (mkEnv ''e2'' 6000 6001 6002) (Some ?ru) ?body s1 = (Inr r2, s2)"
      "postCheckIn uuidShape (mkEnv ''e3'' 7000 7001 7002) (Some ?ru) ?body s2 = (Inr r3, s3)"
      "rs_totalPoints r1 = u_points ?u + 10" "rs_totalPoints r2 = u_points ?u + 20"
      "rs_totalPoints r3 = u_points ?u + 30"
      "map_option u_points (getUserById s3 (jwt_userId ?ru)) = Some (u_points ?u + 30)"
    by blast
  from T run(1) have ev: "ci_pointsEarned (rs_checkIn r1) = 10"
    by blast
  from T have "calculatePoints coffeeId aliceId = 10"
    by blast
  with run ev show ?thesis
    unfolding pts uid by auto
qed

section \<open>C10: updating what is not there\<close>

text \<open>
  Claim C10. \<open>updateUser\<close> on an identifier without a user and \<open>updateUserCard\<close> on a pair
  without a wallet entry return \<open>undefined\<close> and the store as it was. On a user that exists,
  \<open>updateUser\<close> returns the spread of the old record and the updates with \<open>updatedAt\<close> set
  to the clock, stores it under the same key, keeps every other user, the order of the
  keys and the four other collections. \<open>updateUserCard\<close> does the same for the wallet
  entry, without touching any date.
\<close>

theorem update_of_missing_and_present:
  "(getUserById s i = None \<longrightarrow> updateUser now i upd s = (None, s))
   \<and> (getUserCard s userId cardId = None \<longrightarrow> updateUserCard userId cardId updc s = (None, s))
   \<and> (\<forall>u. getUserById s i = Some u \<longrightarrow>
         (\<exists>u' s'. updateUser now i upd s = (Some u', s')
            \<and> u' = (spreadUser u upd)\<lparr>u_updatedAt := now\<rparr>
            \<and> u_updatedAt u' = now
            \<and> getUserById s' i = Some u'
            \<and> (\<forall>j. j \<noteq> i \<longrightarrow> getUserById s' j = getUserById s j)
            \<and> map fst (users s') = map fst (users s)
            \<and> cards s' = cards s \<and> userCards s' = userCards s
            \<and> checkIns s' = checkIns s \<and> businesses s' = businesses s))
   \<and> (\<forall>uc. getUserCard s userId cardId = Some uc \<longrightarrow>
         (\<exists>uc' s'. updateUserCard userId cardId updc s = (Some uc', s')
            \<and> uc' = spreadUserCard uc updc
            \<and> getUserCard s' userId cardId = Some uc'
            \<and> (\<forall>k. k \<noteq> userCardKey userId cardId \<longrightarrow>
                   Map_get (userCards s') k = Map_get (userCards s) k)
            \<and> map fst (userCards s') = map fst (userCards s)
            \<and> users s' = users s \<and> cards s' = cards s
            \<and> checkIns s' = checkIns s \<and> businesses s' = businesses s))"
proof (intro conjI allI impI)
  assume "getUserById s i = None"
  then show "updateUser now i upd s = (None, s)"
    by (simp add: updateUser_def getUserById_def)
next
  assume "getUserCard s userId cardId = None"
  then show "updateUserCard userId cardId updc s = (None, s)"
    by (simp add: updateUserCard_def getUserCard_def)
next
  fix u assume "getUserById s i = Some u"
  then have g: "Map_get (users s) i = Some u"
    by (simp add: getUserById_def)
  show "\<exists>u' s'. updateUser now i upd s = (Some u', s')
            \<and> u' = (spreadUser u upd)\<lparr>u_updatedAt := now\<rparr>
            \<and> u_updatedAt u' = now
            \<and> getUserById s' i = Some u'
            \<and> (\<forall>j. j \<noteq> i \<longrightarrow> getUserById s' j = getUserById s j)
            \<and> map fst (users s') = map fst (users s)
            \<and> cards s' = cards s \<and> userCards s' = userCards s
            \<and> checkIns s' = checkIns s \<and> businesses s' = businesses s"
    using g by (simp add: updateUser_def getUserById_def Map_get_Map_set Map_set_keys_present Let_def)
next
  fix uc assume "getUserCard s userId cardId = Some uc"
  then have g: "Map_get (userCards s) (userCardKey userId cardId) = Some uc"
    by (simp add: getUserCard_def)
  show "\<exists>uc' s'. updateUserCard userId cardId updc s = (Some uc', s')
            \<and> uc' = spreadUserCard uc updc
            \<and> getUserCard s' userId cardId = Some uc'
            \<and> (\<forall>k. k \<noteq> userCardKey userId cardId \<longrightarrow>
                   Map_get (userCards s') k = Map_get (userCards s) k)
            \<and> map fst (userCards s') = map fst (userCards s)
            \<and> users s' = users s \<and> cards s' = cards s
            \<and> checkIns s' = checkIns s \<and> businesses s' = businesses s"
    using g by (simp add: updateUserCard_def getUserCard_def Map_get_Map_set Map_set_keys_present Let_def)
qed

theorem update_of_missing_and_present_witness:
  "getUserById sampleStore ghostId = None
   \<and> updateUser 9000 ghostId (noUserUpdates\<lparr>pu_points := Some 50\<rparr>) sampleStore = (None, sampleStore)
   \<and> getUserCard sampleStore aliceId vipId = None
   \<and> updateUserCard aliceId vipId (noUserCardUpdates\<lparr>puc_lastCheckIn := Some 9000\<rparr>) sampleStore
       = (None, sampleStore)
   \<and> (\<exists>u' s'. updateUser 9000 aliceId (noUserUpdates\<lparr>pu_points := Some 50\<rparr>) sampleStore = (Some u', s')
         \<and> u_points u' = 50 \<and> u_updatedAt u' = 9000 \<and> getUserById s' aliceId = Some u'
         \<and> map fst (users s') = [aliceId] \<and> checkIns s' = [])
   \<and> (\<exists>uc' s'. updateUserCard aliceId coffeeId (noUserCardUpdates\<lparr>puc_lastCheckIn := Some 9000\<rparr>) sampleStore
           = (Some uc', s')
         \<and> uc_lastCheckIn uc' = Some 9000 \<and> getUserCard s' aliceId coffeeId = Some uc'
         \<and> users s' = users sampleStore)"
proof -
  let ?upd = "noUserUpdates\<lparr>pu_points := Some 50\<rparr>"
  let ?updc = "noUserCardUpdates\<lparr>puc_lastCheckIn := Some 9000\<rparr>"
  have h1: "getUserById sampleStore ghostId = None"
   and h2: "getUserCard sampleStore aliceId vipId = None"
   and h3: "getUserById sampleStore aliceId = Some (mkUser aliceId ''alice'' RUser 0 2000)"
   and h4: "getUserCard sampleStore aliceId coffeeId = Some (mkUserCard aliceId coffeeId 3000 None)"
   and h5: "map fst (users sampleStore) = [aliceId]" "checkIns sampleStore = []"
    by (simp_all add: sample_defs getUserById_def getUserCard_def Map_get_def)
  note A = update_of_missing_and_present [where s = sampleStore and i = ghostId and now = 9000
      and upd = ?upd and userId = aliceId and cardId = vipId and updc = ?updc]
  note B = update_of_missing_and_present [where s = sampleStore and i = aliceId and now = 9000
      and upd = ?upd and userId = aliceId and cardId = coffeeId and updc = ?updc]
  from A h1 have a1: "updateUser 9000 ghostId ?upd sampleStore = (None, sampleStore)"
    by blast
  from A h2 have a2: "updateUserCard aliceId vipId ?updc sampleStore = (None, sampleStore)"
    by blast
  from B h3 obtain u' s' where
    b1: "updateUser 9000 aliceId ?upd sampleStore = (Some u', s')"
      "u' = (spreadUser (mkUser aliceId ''alice'' RUser 0 2000) ?upd)\<lparr>u_updatedAt := 9000\<rparr>"
      "u_updatedAt u' = 9000" "getUserById s' aliceId = Some u'"
      "map fst (users s') = map fst (users sampleStore)" "checkIns s' = checkIns sampleStore"
    by blast
  from b1(2) have b2: "u_points u' = 50"
    by (simp add: spreadUser_points)
  from B h4 obtain uc' t' where
    c1: "updateUserCard aliceId coffeeId ?updc sampleStore = (Some uc', t')"
      "uc' = spreadUserCard (mkUserCard aliceId coffeeId 3000 None) ?updc"
      "getUserCard t' aliceId coffeeId = Some uc'" "users t' = users sampleStore"
    by blast
  from c1(2) have c2: "uc_lastCheckIn uc' = Some 9000"
    by (simp add: spreadUserCard_lastCheckIn)
  show ?thesis
    using h1 h2 a1 a2 b1 b2 c1 c2 h5 by simp
qed

section \<open>C1: the balance and the log on the exit \<open>User not found\<close>\<close>

lemma postCheckIn_keeps_registered_balances:
  assumes reg: "getUserById s j = Some uj"
    and inv: "u_points uj = sum_list (map ci_pointsEarned (getCheckInsByUserId s j))"
  shows "\<exists>uj'. getUserById (snd (postCheckIn isUuid env reqUser body s)) j = Some uj'
      \<and> u_points uj' = sum_list (map ci_pointsEarned
            (getCheckInsByUserId (snd (postCheckIn isUuid env reqUser body s)) j))"
proof -
  from postCheckIn_cases [of isUuid env reqUser body s]
  consider (fail) e where "postCheckIn isUuid env reqUser body s = (Inl e, s)"
    | (run) ru crd uc where "reqUser = Some ru" "checkInSchema_parse isUuid body = Some body"
        "getCardById s (rq_cardId body) = Some crd" "c_isActive crd"
        "getUserCard s (jwt_userId ru) (rq_cardId body) = Some uc"
    by blast
  then show ?thesis
  proof cases
    case fail
    with reg inv show ?thesis by simp
  next
    case run
    show ?thesis
    proof (cases "getUserById s (jwt_userId ru)")
      case None
      with reg have ne: "jwt_userId ru \<noteq> j" by auto
      from postCheckIn_userNotFound [OF run(2-5) None, of env] run(1) reg inv ne
      show ?thesis
        by (simp add: getUserById_def getCheckInsByUserId_def newCheckIn_def calculatePoints_def)
    next
      case (Some u)
      note st = postCheckIn_success [OF run(2-5) Some, of env]
      show ?thesis
      proof (cases "jwt_userId ru = j")
        case True
        with reg Some have "u = uj" by simp
        with st run(1) inv True show ?thesis
          by (simp add: getUserById_def getCheckInsByUserId_def newCheckIn_def calculatePoints_def Map_get_Map_set)
      next
        case False
        with st run(1) reg inv show ?thesis
          by (simp add: getUserById_def getCheckInsByUserId_def newCheckIn_def calculatePoints_def Map_get_Map_set)
      qed
    qed
  qed
qed

text \<open>
  Claim C1 says that a user's stored balance equals the sum of \<open>pointsEarned\<close> over the
  user's events after every operation, the failure exits of the check-in included. For a
  user who is in \<open>users\<close> every call of the handler keeps the two in step
  (\<open>postCheckIn_keeps_registered_balances\<close>). The handler pushes the event before it looks
  the user up, though: for the holder of a token whose identifier is not in \<open>users\<close>, with
  the card in the wallet, the answer is 404 \<open>User not found\<close>, the log has gained an event
  worth 10 points for that identifier, and no balance exists for it.
\<close>

theorem checkIn_of_unregistered_user_appends_event:
  "fst (postAddCard ''w-1'' 4000 (Some (mkJwt ghostId ''user'')) coffeeId sampleStore)
     = Inr (mkUserCard ghostId coffeeId 4000 None\<lparr>uc_id := ''w-1''\<rparr>)
   \<and> getUserById ghostStore ghostId = None
   \<and> getCheckInsByUserId ghostStore ghostId = []
   \<and> fst (postCheckIn uuidShape (mkEnv ''e1'' 5000 5001 5002) (Some (mkJwt ghostId ''user''))
           (mkBody coffeeId) ghostStore) = Inl UserNotFound
   \<and> getUserById (snd (postCheckIn uuidShape (mkEnv ''e1'' 5000 5001 5002)
           (Some (mkJwt ghostId ''user'')) (mkBody coffeeId) ghostStore)) ghostId = None
   \<and> map ci_pointsEarned (getCheckInsByUserId (snd (postCheckIn uuidShape
           (mkEnv ''e1'' 5000 5001 5002) (Some (mkJwt ghostId ''user'')) (mkBody coffeeId)
           ghostStore)) ghostId) = [10]"
proof -
  have add: "postAddCard ''w-1'' 4000 (Some (mkJwt ghostId ''user'')) coffeeId sampleStore
      = (Inr (mkUserCard ghostId coffeeId 4000 None\<lparr>uc_id := ''w-1''\<rparr>),
         sampleStore\<lparr>userCards := userCards sampleStore
            @ [(userCardKey ghostId coffeeId, mkUserCard ghostId coffeeId 4000 None\<lparr>uc_id := ''w-1''\<rparr>)]\<rparr>)"
    by (simp add: postAddCard_def getCardById_def getUserCard_def addCardToUser_def Map_get_def
        sample_defs Let_def)
  have g: "ghostStore = sampleStore\<lparr>userCards := userCards sampleStore
            @ [(userCardKey ghostId coffeeId, mkUserCard ghostId coffeeId 4000 None\<lparr>uc_id := ''w-1''\<rparr>)]\<rparr>"
    by (simp add: ghostStore_def add)
  have p: "checkInSchema_parse uuidShape (mkBody coffeeId) = Some (mkBody coffeeId)"
    by (simp add: checkInSchema_parse_def sample_defs)
  have c: "getCardById ghostStore (rq_cardId (mkBody coffeeId)) = Some (mkCard coffeeId ''Coffee'' True)"
    and a: "c_isActive (mkCard coffeeId ''Coffee'' True)"
    and w: "getUserCard ghostStore (jwt_userId (mkJwt ghostId ''user'')) (rq_cardId (mkBody coffeeId))
        = Some (mkUserCard ghostId coffeeId 4000 None\<lparr>uc_id := ''w-1''\<rparr>)"
    and u: "getUserById ghostStore (jwt_userId (mkJwt ghostId ''user'')) = None"
    and u': "getUserById ghostStore ghostId = None"
    and l: "getCheckInsByUserId ghostStore ghostId = []"
    by (simp_all add: g getCardById_def getUserCard_def getUserById_def getCheckInsByUserId_def
        Map_get_def sample_defs)
  note r = postCheckIn_userNotFound [OF p c a w u, of "mkEnv ''e1'' 5000 5001 5002"]
  show ?thesis
    using u' l
    by (simp add: r add getUserById_def getCheckInsByUserId_def newCheckIn_def calculatePoints_def)
      (simp add: mkJwt_def)
qed

section \<open>C5: what \<open>lastCheckIn\<close> is set to\<close>

text \<open>
  Claim C5 says that a successful check-in sets the wallet entry's \<open>lastCheckIn\<close> to the
  timestamp of the appended event. The handler reads the clock once for the event and
  again, after \<open>updateUser\<close>, for \<open>lastCheckIn\<close>: with the readings 5000 and 5002 the event
  carries 5000 and the wallet entry 5002.
\<close>

theorem lastCheckIn_not_event_timestamp:
  "fst (postCheckIn uuidShape (mkEnv ''e1'' 5000 5001 5002) (Some (mkJwt aliceId ''user''))
          (mkBody coffeeId) sampleStore)
     = Inr \<lparr>rs_checkIn = (mkCheckIn ''e1'' aliceId coffeeId 5000), rs_totalPoints = 10,
            rs_message = ''Check-in successful! You earned 10 points.''\<rparr>
   \<and> checkIns (snd (postCheckIn uuidShape (mkEnv ''e1'' 5000 5001 5002) (Some (mkJwt aliceId ''user''))
          (mkBody coffeeId) sampleStore)) = [mkCheckIn ''e1'' aliceId coffeeId 5000]
   \<and> getUserCard (snd (postCheckIn uuidShape (mkEnv ''e1'' 5000 5001 5002)
          (Some (mkJwt aliceId ''user'')) (mkBody coffeeId) sampleStore)) aliceId coffeeId
     = Some (mkUserCard aliceId coffeeId 3000 (Some 5002))
   \<and> Some (ci_timestamp (mkCheckIn ''e1'' aliceId coffeeId 5000))
       \<noteq> uc_lastCheckIn (mkUserCard aliceId coffeeId 3000 (Some 5002))"
proof -
  have p: "checkInSchema_parse uuidShape (mkBody coffeeId) = Some (mkBody coffeeId)"
    by (simp add: checkInSchema_parse_def sample_defs)
  have c: "getCardById sampleStore (rq_cardId (mkBody coffeeId)) = Some (mkCard coffeeId ''Coffee'' True)"
    and a: "c_isActive (mkCard coffeeId ''Coffee'' True)"
    and w: "getUserCard sampleStore (jwt_userId (mkJwt aliceId ''user'')) (rq_cardId (mkBody coffeeId))
        = Some (mkUserCard aliceId coffeeId 3000 None)"
    and u: "getUserById sampleStore (jwt_userId (mkJwt aliceId ''user''))
        = Some (mkUser aliceId ''alice'' RUser 0 2000)"
    by (simp_all add: getCardById_def getUserCard_def getUserById_def Map_get_def sample_defs)
  have m: "showInt 10 = ''10''"
    by code_simp
  note r = postCheckIn_success [OF p c a w u, of "mkEnv ''e1'' 5000 5001 5002"]
  show ?thesis
    unfolding r
    by (simp add: m newCheckIn_def calculatePoints_def getUserCard_def Map_get_def)
      (simp add: sample_defs)
qed

lemma stampedBy_iff:
  "stampedBy t s \<longleftrightarrow>
     (\<forall>uc \<in> set (Map_values (userCards s)). \<forall>l. uc_lastCheckIn uc = Some l \<longrightarrow> l \<le> t)
     \<and> (\<forall>c \<in> set (checkIns s). ci_timestamp c \<le> t)"
  by (auto simp: stampedBy_def list_all_iff split: option.splits)

lemma stampedBy_mono: "stampedBy t s \<Longrightarrow> t \<le> t' \<Longrightarrow> stampedBy t' s"
  by (fastforce simp: stampedBy_iff)

lemma stampedBy_no_history: "userCards s = [] \<Longrightarrow> checkIns s = [] \<Longrightarrow> stampedBy t s"
  by (simp add: stampedBy_def Map_values_def)

lemma stampedBy_demoStore: "stampedBy t demoStore"
  by (rule stampedBy_no_history)
    (simp_all add: demoStore_def initializeMockData_def emptyStore_def createBusiness_def
      createCard_def Let_def)

lemma stampedBy_same:
  "userCards s' = userCards s \<Longrightarrow> checkIns s' = checkIns s \<Longrightarrow> stampedBy t s' = stampedBy t s"
  by (simp add: stampedBy_def)

lemma Map_set_values: "set (Map_values (Map_set m k v)) \<subseteq> insert v (set (Map_values m))"
proof (induction m)
  case Nil
  show ?case by (simp add: Map_values_def)
next
  case (Cons e m)
  obtain k' v' where e: "e = (k', v')"
    by (cases e)
  show ?case
    using Cons.IH by (cases "k' = k") (auto simp: Map_values_def e)
qed

lemma last_last_append: "zs \<noteq> [] \<Longrightarrow> last (last zs # ys) = last (zs @ ys)"
  by (simp add: last_append)

lemma Map_get_values: "Map_get m k = Some v \<Longrightarrow> v \<in> set (Map_values m)"
  by (auto simp: Map_get_def Map_values_def dest: map_of_SomeD intro: rev_image_eqI)

lemma stampedBy_set_entry:
  assumes "stampedBy t s" and "\<forall>l. uc_lastCheckIn uc = Some l \<longrightarrow> l \<le> t"
  shows "stampedBy t (s\<lparr>userCards := Map_set (userCards s) k uc\<rparr>)"
  using assms Map_set_values [of "userCards s" k uc]
  by (auto simp: stampedBy_iff)

lemma stampedBy_remove:
  "stampedBy t s \<Longrightarrow> stampedBy t (snd (removeCardFromUser userId cardId s))"
  by (auto simp: stampedBy_iff removeCardFromUser_def Map_delete_def Map_values_def)

lemma stampedBy_postAddCard:
  assumes "stampedBy t s"
  shows "stampedBy t (snd (postAddCard uuid now reqUser paramId s))"
proof (cases "\<exists>uc. postAddCard uuid now reqUser paramId s
      = (Inr uc, s\<lparr>userCards := Map_set (userCards s) (userCardKey (uc_userId uc) (uc_cardId uc)) uc\<rparr>)
      \<and> uc_lastCheckIn uc = None")
  case True
  then obtain uc where uc: "postAddCard uuid now reqUser paramId s
      = (Inr uc, s\<lparr>userCards := Map_set (userCards s) (userCardKey (uc_userId uc) (uc_cardId uc)) uc\<rparr>)"
      "uc_lastCheckIn uc = None"
    by blast
  from stampedBy_set_entry [OF assms, of uc] uc show ?thesis
    by simp
next
  case False
  then have "snd (postAddCard uuid now reqUser paramId s) = s"
    by (auto simp: postAddCard_def addCardToUser_def Let_def split: option.splits if_splits)
  with assms show ?thesis
    by simp
qed

lemma stampedBy_postCheckIn:
  assumes inv: "stampedBy t s"
    and clk: "t \<le> env_nowEvent env" "env_nowEvent env \<le> env_nowCard env"
  shows "stampedBy (env_nowCard env) (snd (postCheckIn isUuid env reqUser body s))"
proof -
  from inv clk have later: "stampedBy (env_nowCard env) s"
    by (auto intro: stampedBy_mono)
  from postCheckIn_cases [of isUuid env reqUser body s]
  consider (fail) e where "postCheckIn isUuid env reqUser body s = (Inl e, s)"
    | (run) ru crd uc where "reqUser = Some ru" "checkInSchema_parse isUuid body = Some body"
        "getCardById s (rq_cardId body) = Some crd" "c_isActive crd"
        "getUserCard s (jwt_userId ru) (rq_cardId body) = Some uc"
    by blast
  then show ?thesis
  proof cases
    case fail
    with later show ?thesis by simp
  next
    case run
    have ts: "ci_timestamp (newCheckIn env ru body crd) \<le> env_nowCard env"
      using clk by (simp add: newCheckIn_def)
    have appended: "stampedBy (env_nowCard env)
        (s\<lparr>checkIns := checkIns s @ [newCheckIn env ru body crd]\<rparr>)"
      using later ts by (simp add: stampedBy_iff)
    show ?thesis
    proof (cases "getUserById s (jwt_userId ru)")
      case None
      from postCheckIn_userNotFound [OF run(2-5) None, of env] run(1) appended show ?thesis
        by simp
    next
      case (Some u)
      have "stampedBy (env_nowCard env)
          (s\<lparr>checkIns := checkIns s @ [newCheckIn env ru body crd],
             users := Map_set (users s) (jwt_userId ru)
                  (u\<lparr>u_points := u_points u + 10, u_updatedAt := env_nowUser env\<rparr>)\<rparr>)"
        using appended by (simp add: stampedBy_def)
      from stampedBy_set_entry [OF this, of "uc\<lparr>uc_lastCheckIn := Some (env_nowCard env)\<rparr>"
          "userCardKey (jwt_userId ru) (rq_cardId body)"]
        postCheckIn_success [OF run(2-5) Some, of env] run(1)
      show ?thesis
        by simp
    qed
  qed
qed

lemma sorted_last_append:
  "sorted (t # xs @ ys) \<Longrightarrow> sorted (t # xs) \<and> sorted (last (t # xs) # ys)"
proof -
  assume a: "sorted (t # xs @ ys)"
  then have "sorted ((t # xs) @ ys)"
    by simp
  then have s: "sorted (t # xs)" "sorted ys" "\<forall>x \<in> set (t # xs). \<forall>y \<in> set ys. x \<le> y"
    unfolding sorted_append by blast+
  have "last (t # xs) \<in> set (t # xs)"
    by (rule last_in_set) simp
  with s show ?thesis
    by auto
qed

lemma stampedBy_serve:
  assumes "stampedBy t s" and "sorted (t # clockReadings r)"
  shows "stampedBy (last (t # clockReadings r)) (serve isUuid r s)"
proof (cases r)
  case (RegisterR uuid hashed nowC nowU email nm role)
  have "stampedBy t (snd (postRegister uuid hashed nowC nowU email nm role s))"
    using assms(1)
    by (simp add: postRegister_def createUser_def stampedBy_def Let_def split: option.splits)
  with assms(2) RegisterR show ?thesis
    by (auto intro: stampedBy_mono)
next
  case (AddCardR uuid now reqUser paramId)
  with assms stampedBy_postAddCard [OF assms(1), of uuid now reqUser paramId] show ?thesis
    by (auto intro: stampedBy_mono)
next
  case (RemoveCardR reqUser paramId)
  have "snd (deleteRemoveCard reqUser paramId s)
      = (case reqUser of None \<Rightarrow> s
         | Some ru \<Rightarrow> snd (removeCardFromUser (jwt_userId ru) paramId s))"
    by (simp add: deleteRemoveCard_def split: option.splits prod.splits)
  with assms(1) stampedBy_remove [OF assms(1)] RemoveCardR show ?thesis
    by (simp split: option.splits)
next
  case (CheckInR env reqUser body)
  with assms stampedBy_postCheckIn [OF assms(1), of env isUuid reqUser body] show ?thesis
    by auto
next
  case (CreateCardR crd)
  have "stampedBy t (snd (createCard crd s))"
    using assms(1) by (simp add: createCard_def stampedBy_def)
  with assms(2) CreateCardR show ?thesis
    by (auto intro: stampedBy_mono)
next
  case (UpdateCardR now i updates)
  have "stampedBy t (snd (updateCard now i updates s))"
    using assms(1) by (simp add: updateCard_def stampedBy_def Let_def split: option.splits)
  with assms(2) UpdateCardR show ?thesis
    by (auto intro: stampedBy_mono)
next
  case (DeleteCardR i)
  with assms(1) show ?thesis
    by (simp add: deleteCard_def stampedBy_def Map_delete_def)
qed

lemma stampedBy_serveAll:
  assumes "stampedBy t s" and "sorted (t # concat (map clockReadings reqs))"
  shows "stampedBy (last (t # concat (map clockReadings reqs))) (serveAll isUuid reqs s)"
  using assms
proof (induction reqs arbitrary: t s)
  case Nil
  then show ?case by (simp add: serveAll_def)
next
  case (Cons r reqs)
  from Cons.prems(2) have "sorted (t # clockReadings r @ concat (map clockReadings reqs))"
    by simp
  from sorted_last_append [OF this]
  have a: "sorted (t # clockReadings r)"
    and b: "sorted (last (t # clockReadings r) # concat (map clockReadings reqs))"
    by simp_all
  from stampedBy_serve [OF Cons.prems(1) a]
  have "stampedBy (last (t # clockReadings r)) (serve isUuid r s)" .
  from Cons.IH [OF this b]
  have "stampedBy (last (last (t # clockReadings r) # concat (map clockReadings reqs)))
          (serveAll isUuid reqs (serve isUuid r s))" .
  moreover have "last (last (t # clockReadings r) # concat (map clockReadings reqs))
      = last (t # concat (map clockReadings (r # reqs)))"
    using last_last_append [of "t # clockReadings r" "concat (map clockReadings reqs)"]
    by simp
  ultimately show ?case
    by (simp add: serveAll_def)
qed

text \<open>
  Claim C5, amended. A successful check-in sets the wallet entry's \<open>lastCheckIn\<close> to the
  clock reading taken for the wallet update, and appends one event stamped with the
  reading taken for the event; the two need not be equal. In a run of the writing routes
  (registration, wallet add and remove, check-in, the card routes) that starts from a
  store without dates later than the clock, such as the store that the constructor
  leaves, and in which the clock never goes back from one reading to the next, the new
  \<open>lastCheckIn\<close> is at least the previous one and at least the timestamp of every event of
  the pair, the new one included, and the store after the check-in again has no date
  later than the clock.
\<close>

theorem lastCheckIn_is_clock_at_wallet_update:
  assumes start: "stampedBy t0 s0"
    and clock: "sorted (t0 # concat (map clockReadings (reqs @ [CheckInR env (Some ru) body])))"
    and ok: "postCheckIn isUuid env (Some ru) body (serveAll isUuid reqs s0) = (Inr resp, s')"
  shows "\<exists>uc. getUserCard (serveAll isUuid reqs s0) (jwt_userId ru) (rq_cardId body) = Some uc
      \<and> getUserCard s' (jwt_userId ru) (rq_cardId body)
           = Some (uc\<lparr>uc_lastCheckIn := Some (env_nowCard env)\<rparr>)
      \<and> (\<forall>t. uc_lastCheckIn uc = Some t \<longrightarrow> t \<le> env_nowCard env)
      \<and> checkIns s' = checkIns (serveAll isUuid reqs s0) @ [rs_checkIn resp]
      \<and> ci_timestamp (rs_checkIn resp) = env_nowEvent env
      \<and> ci_timestamp (rs_checkIn resp) \<le> env_nowCard env
      \<and> (\<forall>e \<in> set (checkIns s'). ci_userId e = jwt_userId ru \<and> ci_cardId e = rq_cardId body
             \<longrightarrow> ci_timestamp e \<le> env_nowCard env)
      \<and> stampedBy (env_nowCard env) s'"
proof -
  let ?s = "serveAll isUuid reqs s0"
  let ?tl = "last (t0 # concat (map clockReadings reqs))"
  from clock have "sorted (t0 # concat (map clockReadings reqs)
      @ [env_nowEvent env, env_nowUser env, env_nowCard env])"
    by simp
  from sorted_last_append [OF this]
  have run: "sorted (t0 # concat (map clockReadings reqs))"
    and fin: "sorted (?tl # [env_nowEvent env, env_nowUser env, env_nowCard env])"
    by simp_all
  from fin have clk: "?tl \<le> env_nowEvent env" "env_nowEvent env \<le> env_nowCard env"
    by simp_all
  have inv: "stampedBy ?tl ?s"
    using start run by (rule stampedBy_serveAll)
  from postCheckIn_Inr_D [OF ok] obtain crd uc u where
    pre: "checkInSchema_parse isUuid body = Some body"
      "getCardById ?s (rq_cardId body) = Some crd" "c_isActive crd"
      "getUserCard ?s (jwt_userId ru) (rq_cardId body) = Some uc"
      "getUserById ?s (jwt_userId ru) = Some u"
    by auto
  from postCheckIn_success_state [OF pre, of env] ok
  have st: "rs_checkIn resp = newCheckIn env ru body crd"
    "checkIns s' = checkIns ?s @ [newCheckIn env ru body crd]"
    "getUserCard s' (jwt_userId ru) (rq_cardId body)
       = Some (uc\<lparr>uc_lastCheckIn := Some (env_nowCard env)\<rparr>)"
    by auto
  have ts: "ci_timestamp (newCheckIn env ru body crd) = env_nowEvent env"
    by (simp add: newCheckIn_def)
  from pre(4) have "uc \<in> set (Map_values (userCards ?s))"
    unfolding getUserCard_def by (rule Map_get_values)
  with inv clk have prev: "\<forall>t. uc_lastCheckIn uc = Some t \<longrightarrow> t \<le> env_nowCard env"
    by (fastforce simp: stampedBy_iff)
  from stampedBy_postCheckIn [OF inv clk, of isUuid "Some ru" body] ok
  have after: "stampedBy (env_nowCard env) s'"
    by simp
  then have ev: "\<forall>e \<in> set (checkIns s'). ci_userId e = jwt_userId ru \<and> ci_cardId e = rq_cardId body
             \<longrightarrow> ci_timestamp e \<le> env_nowCard env"
    by (simp add: stampedBy_iff)
  from pre(4) st prev after ev clk show ?thesis
    by (simp add: ts)
qed

theorem lastCheckIn_is_clock_at_wallet_update_witness:
  "stampedBy 3000 sampleStore
   \<and> sorted (3000 # concat (map clockReadings
        ([AddCardR ''w-2'' 4000 (Some (mkJwt aliceId ''user'')) vipId,
          CheckInR (mkEnv ''e1'' 5000 5001 5002) (Some (mkJwt aliceId ''user'')) (mkBody coffeeId)]
         @ [CheckInR (mkEnv ''e2'' 6000 6001 6002) (Some (mkJwt aliceId ''user'')) (mkBody coffeeId)])))
   \<and> map_option uc_lastCheckIn (getUserCard (serveAll uuidShape
        [AddCardR ''w-2'' 4000 (Some (mkJwt aliceId ''user'')) vipId,
         CheckInR (mkEnv ''e1'' 5000 5001 5002) (Some (mkJwt aliceId ''user'')) (mkBody coffeeId)]
        sampleStore) aliceId coffeeId) = Some (Some 5002)
   \<and> map_option uc_lastCheckIn (getUserCard (snd (postCheckIn uuidShape (mkEnv ''e2'' 6000 6001 6002)
        (Some (mkJwt aliceId ''user'')) (mkBody coffeeId)
        (serveAll uuidShape
          [AddCardR ''w-2'' 4000 (Some (mkJwt aliceId ''user'')) vipId,
           CheckInR (mkEnv ''e1'' 5000 5001 5002) (Some (mkJwt aliceId ''user'')) (mkBody coffeeId)]
          sampleStore))) aliceId coffeeId) = Some (Some 6002)
   \<and> stampedBy 6002 (snd (postCheckIn uuidShape (mkEnv ''e2'' 6000 6001 6002)
        (Some (mkJwt aliceId ''user'')) (mkBody coffeeId)
        (serveAll uuidShape
          [AddCardR ''w-2'' 4000 (Some (mkJwt aliceId ''user'')) vipId,
           CheckInR (mkEnv ''e1'' 5000 5001 5002) (Some (mkJwt aliceId ''user'')) (mkBody coffeeId)]
          sampleStore)))"
proof -
  let ?ru = "mkJwt aliceId ''user''" and ?body = "mkBody coffeeId"
  let ?envA = "mkEnv ''e1'' 5000 5001 5002" and ?envB = "mkEnv ''e2'' 6000 6001 6002"
  let ?reqs = "[AddCardR ''w-2'' 4000 (Some ?ru) vipId, CheckInR ?envA (Some ?ru) ?body]"
  let ?sa = "snd (postAddCard ''w-2'' 4000 (Some ?ru) vipId sampleStore)"
  let ?uc = "mkUserCard aliceId coffeeId 3000 None"
  have ids: "jwt_userId ?ru = aliceId" "rq_cardId ?body = coffeeId"
    "env_nowCard ?envA = 5002" "env_nowCard ?envB = 6002"
    by (simp_all add: mkJwt_def mkBody_def mkEnv_def)
  have start: "stampedBy 3000 sampleStore"
    by (simp add: stampedBy_def sampleStore_def Map_values_def mkUserCard_def)
  have clock: "sorted (3000 # concat (map clockReadings (?reqs @ [CheckInR ?envB (Some ?ru) ?body])))"
    by (simp add: mkEnv_def)
  have sa: "?sa = sampleStore\<lparr>userCards := userCards sampleStore
      @ [(userCardKey aliceId vipId, mkUserCard aliceId vipId 4000 None\<lparr>uc_id := ''w-2''\<rparr>)]\<rparr>"
    by (simp add: postAddCard_def getCardById_def getUserCard_def addCardToUser_def Map_get_def
        sample_defs Let_def)
  have p: "checkInSchema_parse uuidShape ?body = Some ?body"
    by (simp add: checkInSchema_parse_def sample_defs)
  have c: "getCardById ?sa (rq_cardId ?body) = Some (mkCard coffeeId ''Coffee'' True)"
    and a: "c_isActive (mkCard coffeeId ''Coffee'' True)"
    and w: "getUserCard ?sa (jwt_userId ?ru) (rq_cardId ?body) = Some ?uc"
    and u: "getUserById ?sa (jwt_userId ?ru) = Some (mkUser aliceId ''alice'' RUser 0 2000)"
    unfolding sa
    by (simp_all add: getCardById_def getUserCard_def getUserById_def Map_get_def sample_defs)
  from postCheckIn_success_state [OF p c a w u, of ?envA] obtain respA sb where
    stepA: "postCheckIn uuidShape ?envA (Some ?ru) ?body ?sa = (Inr respA, sb)"
      "getUserById sb (jwt_userId ?ru)
         = Some (mkUser aliceId ''alice'' RUser 0 2000
                  \<lparr>u_points := u_points (mkUser aliceId ''alice'' RUser 0 2000) + 10,
                    u_updatedAt := env_nowUser ?envA\<rparr>)"
      "getCardById sb (rq_cardId ?body) = Some (mkCard coffeeId ''Coffee'' True)"
      "getUserCard sb (jwt_userId ?ru) (rq_cardId ?body)
         = Some (?uc\<lparr>uc_lastCheckIn := Some (env_nowCard ?envA)\<rparr>)"
    by blast
  have run: "serveAll uuidShape ?reqs sampleStore = sb"
    by (simp add: serveAll_def stepA(1))
  from postCheckIn_success_state [OF p stepA(3) a stepA(4) stepA(2), of ?envB] obtain respB sc where
    stepB: "postCheckIn uuidShape ?envB (Some ?ru) ?body sb = (Inr respB, sc)"
    by blast
  from lastCheckIn_is_clock_at_wallet_update [OF start clock, of uuidShape respB sc] stepB run
  obtain uc where
    r: "getUserCard sb (jwt_userId ?ru) (rq_cardId ?body) = Some uc"
      "getUserCard sc (jwt_userId ?ru) (rq_cardId ?body)
         = Some (uc\<lparr>uc_lastCheckIn := Some (env_nowCard ?envB)\<rparr>)"
      "stampedBy (env_nowCard ?envB) sc"
    by auto
  from r(1) stepA(4) have prev: "map_option uc_lastCheckIn (getUserCard sb aliceId coffeeId) = Some (Some 5002)"
    by (simp add: ids)
  from r(2) have new: "map_option uc_lastCheckIn (getUserCard sc aliceId coffeeId) = Some (Some 6002)"
    by (simp add: ids)
  from r(3) have inv: "stampedBy 6002 sc"
    by (simp add: ids)
  from start clock prev new inv show ?thesis
    unfolding run stepB by simp
qed

section \<open>C8: the log only grows, except under \<open>clearAll\<close>\<close>

lemma applyOp_checkIns:
  "\<not> isClearAll op \<Longrightarrow>
     checkIns (applyOp op s) = checkIns s
     \<or> (\<exists>c. op = OpCreateCheckIn c \<and> checkIns (applyOp op s) = checkIns s @ [c])"
  by (cases op)
    (simp_all add: createUser_def updateUser_def createCard_def updateCard_def deleteCard_def
      addCardToUser_def updateUserCard_def removeCardFromUser_def createCheckIn_def
      createBusiness_def Map_delete_def Let_def split: option.splits)

lemma applyOp_prefix: "\<not> isClearAll op \<Longrightarrow> prefix (checkIns s) (checkIns (applyOp op s))"
  using applyOp_checkIns [of op s] by auto

lemma fold_applyOp_prefix:
  "\<forall>op \<in> set ops. \<not> isClearAll op \<Longrightarrow> prefix (checkIns s) (checkIns (fold applyOp ops s))"
proof (induction ops arbitrary: s)
  case Nil
  then show ?case by simp
next
  case (Cons op ops)
  have "prefix (checkIns s) (checkIns (applyOp op s))"
    using Cons.prems by (simp add: applyOp_prefix)
  moreover have "prefix (checkIns (applyOp op s)) (checkIns (fold applyOp ops (applyOp op s)))"
    using Cons.prems by (intro Cons.IH) simp
  ultimately show ?case
    by (simp add: prefix_order.order_trans)
qed

lemma postCheckIn_prefix:
  "prefix (checkIns s) (checkIns (snd (postCheckIn isUuid env reqUser body s)))"
  using postCheckIn_appends [of isUuid env reqUser body s] by auto

lemma postAddCard_checkIns:
  "checkIns (snd (postAddCard uuid now reqUser paramId s)) = checkIns s"
  by (simp add: postAddCard_def addCardToUser_def Let_def split: option.splits)

lemma postRegister_checkIns:
  "checkIns (snd (postRegister uuid hashed nowC nowU email nm role s)) = checkIns s"
  by (simp add: postRegister_def createUser_def Let_def split: option.splits)

text \<open>
  Claim C8 says that no operation of the data store removes a check-in event once it has
  been appended. \<open>clearAll\<close> is a public method of \<open>DataStore\<close>; it assigns the empty array
  to \<open>checkIns\<close>, so on a store with five events the log is empty afterwards.
\<close>

theorem clearAll_removes_events:
  "checkIns busyStore \<noteq> []
   \<and> checkIns (applyOp (OpClearAll 9000) busyStore) = []
   \<and> \<not> prefix (checkIns busyStore) (checkIns (applyOp (OpClearAll 9000) busyStore))"
proof -
  have e: "checkIns (applyOp (OpClearAll 9000) busyStore) = []"
    by (simp add: clearAll_def initializeMockData_def Let_def createBusiness_def createCard_def)
  have n: "checkIns busyStore \<noteq> []"
    by (simp add: busyStore_def)
  from e n show ?thesis by simp
qed

text \<open>
  Claim C8, amended. Every writing method of the store other than \<open>clearAll\<close> leaves the
  events that are in the log where they are and as they are: the log after the call starts
  with the log before it, and only \<open>createCheckIn\<close> adds to it, one event at the end. The
  same holds along any sequence of such calls and for the three handlers that write
  (check-in, wallet add, registration). \<open>clearAll\<close>, the reset that no route calls, is the
  one method that removes events.
\<close>

theorem events_append_only:
  "(\<not> isClearAll op \<longrightarrow>
       checkIns (applyOp op s) = checkIns s
       \<or> (\<exists>c. op = OpCreateCheckIn c \<and> checkIns (applyOp op s) = checkIns s @ [c]))
   \<and> ((\<forall>op \<in> set ops. \<not> isClearAll op) \<longrightarrow> prefix (checkIns s) (checkIns (fold applyOp ops s)))
   \<and> prefix (checkIns s) (checkIns (snd (postCheckIn isUuid env reqUser body s)))
   \<and> checkIns (snd (postAddCard uuid now reqUser paramId s)) = checkIns s
   \<and> checkIns (snd (postRegister uuid hashed nowC nowU email nm role s)) = checkIns s"
  using applyOp_checkIns [of op s] fold_applyOp_prefix [of ops s]
    postCheckIn_prefix [of s isUuid env reqUser body]
    postAddCard_checkIns [of uuid now reqUser paramId s]
    postRegister_checkIns [of uuid hashed nowC nowU email nm role s]
  by blast

theorem events_append_only_witness:
  "\<not> isClearAll (OpDeleteCard coffeeId)
   \<and> checkIns (applyOp (OpDeleteCard coffeeId) busyStore) = checkIns busyStore
   \<and> list_all (Not \<circ> isClearAll)
         [OpRemoveCardFromUser aliceId coffeeId,
          OpCreateCheckIn (mkCheckIn ''c6'' bobId coffeeId (5 * day)),
          OpUpdateUser 9000 aliceId (noUserUpdates\<lparr>pu_points := Some 0\<rparr>)]
   \<and> prefix (checkIns busyStore)
        (checkIns (fold applyOp [OpRemoveCardFromUser aliceId coffeeId,
                     OpCreateCheckIn (mkCheckIn ''c6'' bobId coffeeId (5 * day)),
                     OpUpdateUser 9000 aliceId (noUserUpdates\<lparr>pu_points := Some 0\<rparr>)] busyStore))"
proof -
  let ?ops = "[OpRemoveCardFromUser aliceId coffeeId,
               OpCreateCheckIn (mkCheckIn ''c6'' bobId coffeeId (5 * day)),
               OpUpdateUser 9000 aliceId (noUserUpdates\<lparr>pu_points := Some 0\<rparr>)]"
  have h1: "\<not> isClearAll (OpDeleteCard coffeeId)"
    by simp
  have h2: "\<forall>op \<in> set ?ops. \<not> isClearAll op"
    by simp
  note T = events_append_only [where op = "OpDeleteCard coffeeId" and s = busyStore and ops = ?ops]
  from T h1 have "checkIns (applyOp (OpDeleteCard coffeeId) busyStore) = checkIns busyStore"
    by blast
  moreover from T h2 have "prefix (checkIns busyStore) (checkIns (fold applyOp ?ops busyStore))"
    by blast
  ultimately show ?thesis
    using h1 by simp
qed

section \<open>C3: the leaderboard\<close>

lemma toLeaderboard_length: "length (toLeaderboard us) = length us"
  by (simp add: toLeaderboard_def)

lemma enumerate_points:
  "map lb_points (map (\<lambda>(index, user). leaderboardEntry index user) (enumerate n us)) = map u_points us"
  by (induction us arbitrary: n) (simp_all add: leaderboardEntry_def)

lemma enumerate_rank:
  "map lb_rank (map (\<lambda>(index, user). leaderboardEntry index user) (enumerate n us))
     = map Suc [n ..< n + length us]"
proof -
  have "map lb_rank (map (\<lambda>(index, user). leaderboardEntry index user) ps) = map Suc (map fst ps)" for ps
    by (induction ps) (simp_all add: leaderboardEntry_def split_def)
  from this [of "enumerate n us"] show ?thesis
    by simp
qed

lemma enumerate_ties:
  "map lb_userId (filter (\<lambda>e. lb_points e = p)
       (map (\<lambda>(index, user). leaderboardEntry index user) (enumerate n us)))
     = map u_id (filter (\<lambda>u. u_points u = p) us)"
  by (induction us arbitrary: n) (simp_all add: leaderboardEntry_def)

lemma toLeaderboard_points: "map lb_points (toLeaderboard us) = map u_points us"
  unfolding toLeaderboard_def by (rule enumerate_points)

lemma toLeaderboard_rank: "map lb_rank (toLeaderboard us) = map Suc [0 ..< length us]"
  unfolding toLeaderboard_def using enumerate_rank [of 0 us] by simp

lemma toLeaderboard_ties:
  "map lb_userId (filter (\<lambda>e. lb_points e = p) (toLeaderboard us))
     = map u_id (filter (\<lambda>u. u_points u = p) us)"
  unfolding toLeaderboard_def by (rule enumerate_ties)

lemma slice0_take: "slice0 e xs = take (length (slice0 e xs)) xs"
  by (simp add: slice0_def Let_def)

lemma slice0_prefix: "prefix (slice0 e xs) xs"
  by (simp add: slice0_def Let_def take_is_prefix)

lemma slice0_length_pos: "0 < e \<Longrightarrow> length (slice0 e xs) = min (nat e) (length xs)"
  by (auto simp: slice0_def Let_def)

lemma sortByPointsDesc_sorted: "sorted_wrt (\<lambda>a b. a \<ge> b) (map u_points (sortByPointsDesc us))"
proof -
  have "sorted (map (\<lambda>u. - u_points u) (sortByPointsDesc us))"
    by (simp add: sortByPointsDesc_def)
  then show ?thesis
    by (simp add: sorted_wrt_map)
qed

lemma sortByPointsDesc_stable:
  "filter (\<lambda>u. u_points u = p) (sortByPointsDesc us) = filter (\<lambda>u. u_points u = p) us"
  using sort_key_stable [of "\<lambda>u. - u_points u" "- p" us]
  by (simp add: sortByPointsDesc_def)

lemma ranked_sorted:
  "sorted_wrt (\<lambda>a b. a \<ge> b) (map lb_points (toLeaderboard (slice0 e (sortByPointsDesc us))))"
proof -
  have "sorted_wrt (\<lambda>a b. a \<ge> b) (take (length (slice0 e (sortByPointsDesc us))) (map u_points (sortByPointsDesc us)))"
    using sortByPointsDesc_sorted [of us] by (rule sorted_wrt_take)
  then show ?thesis
    using slice0_take [of e "sortByPointsDesc us"]
    by (simp add: toLeaderboard_points take_map)
qed

lemma ranked_ties:
  "prefix (map lb_userId (filter (\<lambda>e. lb_points e = p) (toLeaderboard (slice0 e (sortByPointsDesc us)))))
          (map u_id (filter (\<lambda>u. u_points u = p) us))"
proof -
  have "prefix (filter (\<lambda>u. u_points u = p) (slice0 e (sortByPointsDesc us)))
               (filter (\<lambda>u. u_points u = p) (sortByPointsDesc us))"
    by (rule filter_mono_prefix) (rule slice0_prefix)
  then have "prefix (filter (\<lambda>u. u_points u = p) (slice0 e (sortByPointsDesc us)))
               (filter (\<lambda>u. u_points u = p) us)"
    by (simp add: sortByPointsDesc_stable)
  then show ?thesis
    by (simp add: toLeaderboard_ties map_mono_prefix)
qed

lemma toLeaderboard_nth:
  "toLeaderboard us = map (\<lambda>i. leaderboardEntry i (us ! i)) [0 ..< length us]"
  by (rule nth_equalityI) (simp_all add: toLeaderboard_def nth_enumerate_eq)

lemma ranked_from_sorted:
  "toLeaderboard (slice0 e us)
     = map (\<lambda>i. leaderboardEntry i (us ! i)) [0 ..< length (toLeaderboard (slice0 e us))]"
proof -
  have k: "length (slice0 e us) \<le> length us"
    by (simp add: slice0_def Let_def)
  have "toLeaderboard (slice0 e us)
      = map (\<lambda>i. leaderboardEntry i (slice0 e us ! i)) [0 ..< length (slice0 e us)]"
    by (rule toLeaderboard_nth)
  also have "\<dots> = map (\<lambda>i. leaderboardEntry i (us ! i)) [0 ..< length (slice0 e us)]"
    by (rule map_cong) (simp_all add: slice0_def Let_def)
  finally show ?thesis
    by (simp add: toLeaderboard_length)
qed

lemma sortByPointsDesc_mset: "mset (sortByPointsDesc us) = mset us"
  by (simp add: sortByPointsDesc_def)

lemma ranked_top:
  "\<exists>srt. mset srt = mset us
      \<and> sorted_wrt (\<lambda>a b. a \<ge> b) (map u_points srt)
      \<and> (\<forall>p. filter (\<lambda>u. u_points u = p) srt = filter (\<lambda>u. u_points u = p) us)
      \<and> length (toLeaderboard (slice0 e (sortByPointsDesc us))) \<le> length srt
      \<and> toLeaderboard (slice0 e (sortByPointsDesc us))
          = map (\<lambda>i. leaderboardEntry i (srt ! i))
              [0 ..< length (toLeaderboard (slice0 e (sortByPointsDesc us)))]"
proof (intro exI [of _ "sortByPointsDesc us"] conjI allI)
  show "mset (sortByPointsDesc us) = mset us"
    by (rule sortByPointsDesc_mset)
  show "sorted_wrt (\<lambda>a b. a \<ge> b) (map u_points (sortByPointsDesc us))"
    by (rule sortByPointsDesc_sorted)
  show "filter (\<lambda>u. u_points u = p) (sortByPointsDesc us) = filter (\<lambda>u. u_points u = p) us" for p
    by (rule sortByPointsDesc_stable)
  show "length (toLeaderboard (slice0 e (sortByPointsDesc us))) \<le> length (sortByPointsDesc us)"
    by (simp add: toLeaderboard_length slice0_def Let_def)
  show "toLeaderboard (slice0 e (sortByPointsDesc us))
          = map (\<lambda>i. leaderboardEntry i (sortByPointsDesc us ! i))
              [0 ..< length (toLeaderboard (slice0 e (sortByPointsDesc us)))]"
    by (rule ranked_from_sorted)
qed

text \<open>
  Claim C3 says that the leaderboard assigns dense ranks, equal points receiving equal
  rank, returns at most \<open>n\<close> entries for the limit \<open>n\<close>, and breaks ties by the earliest
  account creation, never by the iteration order of the map. The rank in the code is the
  index plus one: Bob and Carol both have 10 points and get the ranks 2 and 3. The limit 0
  is falsy and replaced by 10: three entries come back. The sort compares points only and
  is stable, so a tie keeps the iteration order of the map: in the store of the two
  registrations Bob, inserted first and created at 2600, stands before Carol, created at
  2500.
\<close>

theorem leaderboard_ranks_by_position:
  "map lb_userId (leaderboard (Some 10) busyStore) = [aliceId, bobId, carolId]
   \<and> map lb_points (leaderboard (Some 10) busyStore) = [20, 10, 10]
   \<and> map lb_rank (leaderboard (Some 10) busyStore) = [1, 2, 3]
   \<and> length (leaderboard (Some 0) busyStore) = 3
   \<and> map u_id (getAllUsers tieStore) = [bobId, carolId]
   \<and> map u_createdAt (getAllUsers tieStore) = [2600, 2500]
   \<and> map lb_userId (leaderboard (Some 10) tieStore) = [bobId, carolId]
   \<and> map lb_points (leaderboard (Some 10) tieStore) = [0, 0]
   \<and> map lb_rank (leaderboard (Some 10) tieStore) = [1, 2]"
proof -
  have busy: "map lb_userId (leaderboard (Some 10) busyStore) = [aliceId, bobId, carolId]
   \<and> map lb_points (leaderboard (Some 10) busyStore) = [20, 10, 10]
   \<and> map lb_rank (leaderboard (Some 10) busyStore) = [1, 2, 3]
   \<and> length (leaderboard (Some 0) busyStore) = 3"
    by (simp add: leaderboard_def parseIntOr_def getAllUsers_def Map_values_def busyStore_def
        mkUser_def sortByPointsDesc_def slice0_def toLeaderboard_def leaderboardEntry_def
        enumerate_eq_zip upt_rec Let_def)
  have ne: "bobId \<noteq> carolId"
    by (simp add: bobId_def carolId_def)
  have users: "users tieStore
      = [(bobId, \<lparr>u_id = bobId, u_email = ''bob@example.com'', u_password = ''$2b$10$hashB'',
                  u_name = ''bob'', u_role = RUser, u_points = 0, u_createdAt = 2600,
                  u_updatedAt = 2600\<rparr>),
         (carolId, \<lparr>u_id = carolId, u_email = ''carol@example.com'', u_password = ''$2b$10$hashC'',
                  u_name = ''carol'', u_role = RUser, u_points = 0, u_createdAt = 2500,
                  u_updatedAt = 2500\<rparr>)]"
    using ne
    by (simp add: tieStore_def postRegister_def getUserByEmail_def createUser_def emptyStore_def
        Map_values_def Let_def)
  have tie: "map u_id (getAllUsers tieStore) = [bobId, carolId]
   \<and> map u_createdAt (getAllUsers tieStore) = [2600, 2500]
   \<and> map lb_userId (leaderboard (Some 10) tieStore) = [bobId, carolId]
   \<and> map lb_points (leaderboard (Some 10) tieStore) = [0, 0]
   \<and> map lb_rank (leaderboard (Some 10) tieStore) = [1, 2]"
    by (simp add: leaderboard_def parseIntOr_def getAllUsers_def Map_values_def users
        sortByPointsDesc_def slice0_def toLeaderboard_def leaderboardEntry_def
        enumerate_eq_zip upt_rec Let_def)
  from busy tie show ?thesis
    by simp
qed

text \<open>
  Claim C3, amended. The leaderboard lists the accounts of role \<open>user\<close> with the most
  points, highest first: its entries are built, position by position, from the beginning
  of the list \<open>srt\<close> that holds all these accounts sorted by points, highest first, with
  accounts of equal points in the order in which the store iterates over its users, which
  is the order of their insertion (the sort is stable; the creation date is not looked
  at). The rank of an entry is its position, counted from 1, so accounts with equal points
  get consecutive, different ranks. For a limit \<open>n > 0\<close> the list has \<open>n\<close> entries or all
  eligible accounts if there are fewer; a limit that is missing, unreadable or 0 means 10.
  The result is a function of the store and the limit.
\<close>

theorem leaderboard_order_and_ranks:
  "sorted_wrt (\<lambda>a b. a \<ge> b) (map lb_points (leaderboard q s))
   \<and> map lb_rank (leaderboard q s) = map Suc [0 ..< length (leaderboard q s)]
   \<and> prefix (map lb_userId (filter (\<lambda>e. lb_points e = p) (leaderboard q s)))
        (map u_id (filter (\<lambda>u. u_points u = p) (filter (\<lambda>u. u_role u = RUser) (getAllUsers s))))
   \<and> (0 < n \<longrightarrow> length (leaderboard (Some n) s)
          = min (nat n) (length (filter (\<lambda>u. u_role u = RUser) (getAllUsers s))))
   \<and> leaderboard None s = leaderboard (Some 10) s
   \<and> leaderboard (Some 0) s = leaderboard (Some 10) s
   \<and> (\<exists>srt. mset srt = mset (filter (\<lambda>u. u_role u = RUser) (getAllUsers s))
         \<and> sorted_wrt (\<lambda>a b. a \<ge> b) (map u_points srt)
         \<and> (\<forall>pts. filter (\<lambda>u. u_points u = pts) srt
                = filter (\<lambda>u. u_points u = pts) (filter (\<lambda>u. u_role u = RUser) (getAllUsers s)))
         \<and> length (leaderboard q s) \<le> length srt
         \<and> leaderboard q s
             = map (\<lambda>i. leaderboardEntry i (srt ! i)) [0 ..< length (leaderboard q s)])"
proof (intro conjI impI)
  show "sorted_wrt (\<lambda>a b. a \<ge> b) (map lb_points (leaderboard q s))"
    by (simp add: leaderboard_def Let_def ranked_sorted)
  show "map lb_rank (leaderboard q s) = map Suc [0 ..< length (leaderboard q s)]"
    by (simp add: leaderboard_def Let_def toLeaderboard_rank toLeaderboard_length)
  show "prefix (map lb_userId (filter (\<lambda>e. lb_points e = p) (leaderboard q s)))
        (map u_id (filter (\<lambda>u. u_points u = p) (filter (\<lambda>u. u_role u = RUser) (getAllUsers s))))"
    unfolding leaderboard_def Let_def by (rule ranked_ties)
  show "leaderboard None s = leaderboard (Some 10) s" "leaderboard (Some 0) s = leaderboard (Some 10) s"
    by (simp_all add: leaderboard_def parseIntOr_def)
  show "\<exists>srt. mset srt = mset (filter (\<lambda>u. u_role u = RUser) (getAllUsers s))
         \<and> sorted_wrt (\<lambda>a b. a \<ge> b) (map u_points srt)
         \<and> (\<forall>pts. filter (\<lambda>u. u_points u = pts) srt
                = filter (\<lambda>u. u_points u = pts) (filter (\<lambda>u. u_role u = RUser) (getAllUsers s)))
         \<and> length (leaderboard q s) \<le> length srt
         \<and> leaderboard q s
             = map (\<lambda>i. leaderboardEntry i (srt ! i)) [0 ..< length (leaderboard q s)]"
    unfolding leaderboard_def Let_def by (rule ranked_top)
next
  assume "0 < n"
  then show "length (leaderboard (Some n) s)
          = min (nat n) (length (filter (\<lambda>u. u_role u = RUser) (getAllUsers s)))"
    by (simp add: leaderboard_def Let_def parseIntOr_def toLeaderboard_length slice0_length_pos
        sortByPointsDesc_def)
qed

theorem leaderboard_order_and_ranks_witness:
  "(0::int) < 2
   \<and> length (leaderboard (Some 2) busyStore) = 2
   \<and> map lb_rank (leaderboard (Some 2) busyStore) = [1, 2]
   \<and> sorted_wrt (\<lambda>a b. a \<ge> b) (map lb_points (leaderboard (Some 2) busyStore))
   \<and> (0::int) < 1
   \<and> length (leaderboard (Some 1) lateLeaderStore) = 1
   \<and> map lb_userId (leaderboard (Some 1) lateLeaderStore) = [aliceId]"
proof -
  note T = leaderboard_order_and_ranks [where q = "Some 2" and s = busyStore and n = 2 and p = 10]
  have el: "length (filter (\<lambda>u. u_role u = RUser) (getAllUsers busyStore)) = 3"
    by (simp add: getAllUsers_def Map_values_def busyStore_def mkUser_def)
  have pos: "(0::int) < 2"
    by simp
  from T pos have "length (leaderboard (Some 2) busyStore)
      = min (nat 2) (length (filter (\<lambda>u. u_role u = RUser) (getAllUsers busyStore)))"
    by blast
  then have len: "length (leaderboard (Some 2) busyStore) = 2"
    by (simp add: el)
  from T have "map lb_rank (leaderboard (Some 2) busyStore)
      = map Suc [0 ..< length (leaderboard (Some 2) busyStore)]"
    by blast
  then have rk: "map lb_rank (leaderboard (Some 2) busyStore) = [1, 2]"
    by (simp add: len upt_rec)
  from T have srt: "sorted_wrt (\<lambda>a b. a \<ge> b) (map lb_points (leaderboard (Some 2) busyStore))"
    by blast
  note L = leaderboard_order_and_ranks [where q = "Some 1" and s = lateLeaderStore and n = 1 and p = 20]
  have el': "length (filter (\<lambda>u. u_role u = RUser) (getAllUsers lateLeaderStore)) = 3"
    by (simp add: getAllUsers_def Map_values_def lateLeaderStore_def mkUser_def)
  have "(0::int) < 1 \<longrightarrow> length (leaderboard (Some 1) lateLeaderStore)
      = min (nat 1) (length (filter (\<lambda>u. u_role u = RUser) (getAllUsers lateLeaderStore)))"
    using L by blast
  then have len': "length (leaderboard (Some 1) lateLeaderStore) = 1"
    by (simp add: el')
  have top: "map lb_userId (leaderboard (Some 1) lateLeaderStore) = [aliceId]"
    by (simp add: leaderboard_def parseIntOr_def getAllUsers_def Map_values_def lateLeaderStore_def
        mkUser_def sortByPointsDesc_def slice0_def toLeaderboard_def leaderboardEntry_def
        enumerate_eq_zip upt_rec Let_def)
  from len rk srt len' top show ?thesis
    by simp
qed

section \<open>C9: who is counted in the analytics\<close>

lemma slice0_subset: "set (slice0 e xs) \<subseteq> set xs"
  by (simp add: slice0_def Let_def set_take_subset)

lemma toLeaderboard_set:
  assumes "e \<in> set (toLeaderboard us)"
  shows "\<exists>u \<in> set us. lb_userId e = u_id u \<and> lb_userName e = u_name u
           \<and> lb_userEmail e = u_email u \<and> lb_points e = u_points u"
proof -
  from assms obtain pr where pr: "pr \<in> set (enumerate 0 us)"
      "e = leaderboardEntry (fst pr) (snd pr)"
    by (auto simp: toLeaderboard_def)
  from pr(1) have "snd pr \<in> snd ` set (enumerate 0 us)"
    by (rule imageI)
  then have "snd pr \<in> set (map snd (enumerate 0 us))"
    by (simp only: set_map)
  then have "snd pr \<in> set us"
    by (simp only: map_snd_enumerate)
  with pr(2) show ?thesis
    by (auto simp: leaderboardEntry_def)
qed

lemma ranked_entries_are_users:
  assumes "e \<in> set (toLeaderboard (slice0 k (sortByPointsDesc (filter (\<lambda>u. u_role u = RUser) us))))"
  shows "\<exists>u \<in> set us. u_role u = RUser \<and> lb_userId e = u_id u \<and> lb_userName e = u_name u
           \<and> lb_userEmail e = u_email u \<and> lb_points e = u_points u"
proof -
  from toLeaderboard_set [OF assms] obtain u where
    u: "u \<in> set (slice0 k (sortByPointsDesc (filter (\<lambda>u. u_role u = RUser) us)))"
      "lb_userId e = u_id u" "lb_userName e = u_name u" "lb_userEmail e = u_email u"
      "lb_points e = u_points u"
    by (elim bexE conjE)
  have "set (slice0 k (sortByPointsDesc (filter (\<lambda>u. u_role u = RUser) us)))
      \<subseteq> set (sortByPointsDesc (filter (\<lambda>u. u_role u = RUser) us))"
    by (rule slice0_subset)
  with u(1) have "u \<in> set (sortByPointsDesc (filter (\<lambda>u. u_role u = RUser) us))"
    by (rule subsetD [rotated])
  then have m: "u \<in> set us" "u_role u = RUser"
    by (simp_all add: sortByPointsDesc_def)
  show ?thesis
    by (rule bexI [of _ u]) (simp_all add: m u)
qed

lemma Set_size_card: "Set_size xs = card (set xs)"
  by (simp add: Set_size_def length_remdups_card_conv)

text \<open>
  Claim C9 says that an account of role \<open>admin\<close> or \<open>business\<close> never appears in any user
  count of the analytics, whatever its check-ins. The store below has three accounts of
  role \<open>user\<close> and an administrator who has checked in once: user-activity reports
  \<open>totalUsers\<close> 3 and \<open>usersWithCheckIns\<close> 4, and the overview's \<open>activeUsers\<close> is 4.
\<close>

theorem userActivity_counts_administrator:
  "map u_role (getAllUsers busyStore) = [RUser, RUser, RUser, RAdmin]
   \<and> map ci_userId (getAllCheckIns busyStore) = [aliceId, bobId, aliceId, carolId, adminId]
   \<and> ua_totalUsers (userActivity (5 * day) busyStore) = 3
   \<and> ua_usersWithCheckIns (userActivity (5 * day) busyStore) = 4
   \<and> ua_activeLastWeek (userActivity (5 * day) busyStore) = 4
   \<and> ua_activeLastMonth (userActivity (5 * day) busyStore) = 4
   \<and> overview_activeUsers 0 busyStore = 4"
proof -
  have r: "map u_role (getAllUsers busyStore) = [RUser, RUser, RUser, RAdmin]"
    by (simp add: getAllUsers_def Map_values_def busyStore_def mkUser_def)
  have c: "map ci_userId (getAllCheckIns busyStore) = [aliceId, bobId, aliceId, carolId, adminId]"
    by (simp add: getAllCheckIns_def busyStore_def mkCheckIn_def)
  have t: "ua_totalUsers (userActivity (5 * day) busyStore) = 3"
    by (simp add: userActivity_def getAllUsers_def Map_values_def busyStore_def mkUser_def Let_def)
  have w: "ua_usersWithCheckIns (userActivity (5 * day) busyStore) = 4"
    by (simp add: userActivity_def getAllUsers_def getAllCheckIns_def
        Map_values_def Set_size_def busyStore_def mkUser_def mkCheckIn_def Let_def
        aliceId_def bobId_def carolId_def adminId_def)
  have lw: "ua_activeLastWeek (userActivity (5 * day) busyStore) = 4"
    by (simp add: userActivity_def getAllUsers_def getAllCheckIns_def
        Map_values_def Set_size_def busyStore_def mkUser_def mkCheckIn_def Let_def day_def
        aliceId_def bobId_def carolId_def adminId_def)
  have lm: "ua_activeLastMonth (userActivity (5 * day) busyStore) = 4"
    by (simp add: userActivity_def getAllUsers_def getAllCheckIns_def
        Map_values_def Set_size_def busyStore_def mkUser_def mkCheckIn_def Let_def day_def
        aliceId_def bobId_def carolId_def adminId_def)
  have ov: "overview_activeUsers 0 busyStore = 4"
    by (simp add: overview_activeUsers_def getAllCheckIns_def Set_size_def busyStore_def
        mkCheckIn_def day_def aliceId_def bobId_def carolId_def adminId_def)
  from r c t w lw lm ov show ?thesis
    by (intro conjI)
qed

text \<open>
  Claim C9, amended. The views that are built from the accounts take only accounts of role
  \<open>user\<close>: every entry of the leaderboard and of the overview's \<open>topUsers\<close> carries the
  identifier, name, address and points of such an account, and \<open>totalUsers\<close>, in the
  overview and in user-activity, is their number. The counts that are built from the
  check-in log (\<open>usersWithCheckIns\<close>, \<open>activeLastWeek\<close>, \<open>activeLastMonth\<close>, the overview's
  \<open>activeUsers\<close>) are the numbers of different user identifiers among the events, whatever
  the role of the account behind an identifier.
\<close>

theorem analytics_role_filter:
  "(\<forall>e \<in> set (leaderboard q s). \<exists>u \<in> set (getAllUsers s). u_role u = RUser
        \<and> lb_userId e = u_id u \<and> lb_userName e = u_name u
        \<and> lb_userEmail e = u_email u \<and> lb_points e = u_points u)
   \<and> (\<forall>e \<in> set (overview_topUsers s). \<exists>u \<in> set (getAllUsers s). u_role u = RUser
        \<and> lb_userId e = u_id u \<and> lb_userName e = u_name u
        \<and> lb_userEmail e = u_email u \<and> lb_points e = u_points u)
   \<and> overview_totalUsers s = length (filter (\<lambda>u. u_role u = RUser) (getAllUsers s))
   \<and> ua_totalUsers (userActivity now s) = length (filter (\<lambda>u. u_role u = RUser) (getAllUsers s))
   \<and> ua_usersWithCheckIns (userActivity now s) = card (ci_userId ` set (checkIns s))
   \<and> ua_activeLastWeek (userActivity now s)
        = card (ci_userId ` {c \<in> set (checkIns s). ci_timestamp c \<ge> now - 604800000})
   \<and> ua_activeLastMonth (userActivity now s)
        = card (ci_userId ` {c \<in> set (checkIns s). ci_timestamp c \<ge> now - 2592000000})
   \<and> overview_activeUsers t s = card (ci_userId ` {c \<in> set (checkIns s). ci_timestamp c \<ge> t})"
proof (intro conjI ballI)
  fix e assume "e \<in> set (leaderboard q s)"
  then show "\<exists>u \<in> set (getAllUsers s). u_role u = RUser
        \<and> lb_userId e = u_id u \<and> lb_userName e = u_name u
        \<and> lb_userEmail e = u_email u \<and> lb_points e = u_points u"
    unfolding leaderboard_def Let_def by (rule ranked_entries_are_users)
next
  fix e assume "e \<in> set (overview_topUsers s)"
  then show "\<exists>u \<in> set (getAllUsers s). u_role u = RUser
        \<and> lb_userId e = u_id u \<and> lb_userName e = u_name u
        \<and> lb_userEmail e = u_email u \<and> lb_points e = u_points u"
    unfolding overview_topUsers_def by (rule ranked_entries_are_users)
next
  show "overview_totalUsers s = length (filter (\<lambda>u. u_role u = RUser) (getAllUsers s))"
    by (simp add: overview_totalUsers_def)
  show "ua_totalUsers (userActivity now s) = length (filter (\<lambda>u. u_role u = RUser) (getAllUsers s))"
    by (simp add: userActivity_def Let_def)
  show "ua_usersWithCheckIns (userActivity now s) = card (ci_userId ` set (checkIns s))"
    by (simp add: userActivity_def Let_def Set_size_card getAllCheckIns_def)
  show "ua_activeLastWeek (userActivity now s)
        = card (ci_userId ` {c \<in> set (checkIns s). ci_timestamp c \<ge> now - 604800000})"
    by (simp add: userActivity_def Let_def Set_size_card getAllCheckIns_def)
  show "ua_activeLastMonth (userActivity now s)
        = card (ci_userId ` {c \<in> set (checkIns s). ci_timestamp c \<ge> now - 2592000000})"
    by (simp add: userActivity_def Let_def Set_size_card getAllCheckIns_def)
  show "overview_activeUsers t s = card (ci_userId ` {c \<in> set (checkIns s). ci_timestamp c \<ge> t})"
    by (simp add: overview_activeUsers_def Set_size_card getAllCheckIns_def)
qed

theorem analytics_role_filter_witness:
  "leaderboard (Some 10) busyStore \<noteq> []
   \<and> overview_topUsers busyStore \<noteq> []
   \<and> (\<exists>u \<in> set (getAllUsers busyStore). u_role u = RUser
         \<and> lb_userId (hd (leaderboard (Some 10) busyStore)) = u_id u)
   \<and> (\<exists>u \<in> set (getAllUsers busyStore). u_role u = RUser
         \<and> lb_userId (hd (overview_topUsers busyStore)) = u_id u)"
proof -
  have ne: "leaderboard (Some 10) busyStore \<noteq> []" "overview_topUsers busyStore \<noteq> []"
    by (simp_all add: leaderboard_def overview_topUsers_def parseIntOr_def getAllUsers_def
        Map_values_def busyStore_def mkUser_def sortByPointsDesc_def slice0_def toLeaderboard_def
        Let_def)
  then have mem: "hd (leaderboard (Some 10) busyStore) \<in> set (leaderboard (Some 10) busyStore)"
    "hd (overview_topUsers busyStore) \<in> set (overview_topUsers busyStore)"
    by simp_all
  note T = analytics_role_filter [where q = "Some 10" and s = busyStore]
  from T mem(1) have a: "\<exists>u \<in> set (getAllUsers busyStore). u_role u = RUser
         \<and> lb_userId (hd (leaderboard (Some 10) busyStore)) = u_id u"
    by blast
  from T mem(2) have b: "\<exists>u \<in> set (getAllUsers busyStore). u_role u = RUser
         \<and> lb_userId (hd (overview_topUsers busyStore)) = u_id u"
    by blast
  from ne a b show ?thesis
    by blast
qed

section \<open>C7: per-card statistics\<close>

lemma Math_round_near: "\<bar>of_int (Math_round y) - y\<bar> \<le> 1 / 2"
proof -
  have "of_int \<lfloor>y + 1 / 2\<rfloor> \<le> y + 1 / 2" "y + 1 / 2 < of_int \<lfloor>y + 1 / 2\<rfloor> + 1"
    by linarith+
  then show ?thesis
    unfolding Math_round_def by linarith
qed

lemma roundTenth_near: "\<bar>roundTenth x - x\<bar> \<le> 1 / 20"
proof -
  have "\<bar>of_int (Math_round (x * 10)) - x * 10\<bar> \<le> 1 / 2"
    by (rule Math_round_near)
  then have "\<bar>(of_int (Math_round (x * 10)) - x * 10) / 10\<bar> \<le> (1 / 2) / 10"
    by (simp only: abs_divide) simp
  then show ?thesis
    by (simp add: roundTenth_def diff_divide_distrib)
qed

lemma roundTenth_zero: "roundTenth 0 = 0"
proof -
  have "\<lfloor>(1::rat) / 2\<rfloor> = 0"
    by (rule floor_unique) simp_all
  then show ?thesis
    by (simp add: roundTenth_def Math_round_def)
qed

lemma cardStatsOf_fields:
  "st_totalCheckIns (cardStatsOf t cs crd) = length (filter (\<lambda>ci. ci_cardId ci = c_id crd) cs)"
  "st_uniqueUsers (cardStatsOf t cs crd) = card (ci_userId ` {ci \<in> set cs. ci_cardId ci = c_id crd})"
  "st_avgCheckInsPerUser (cardStatsOf t cs crd)
     = (if st_uniqueUsers (cardStatsOf t cs crd) = 0 then 0
        else roundTenth (of_nat (st_totalCheckIns (cardStatsOf t cs crd))
                          / of_nat (st_uniqueUsers (cardStatsOf t cs crd))))"
  by (simp_all add: cardStatsOf_def Let_def Set_size_def length_remdups_card_conv roundTenth_zero)

lemma cardAnalytics_entry:
  assumes "(crd, st) \<in> set (cardAnalytics clk s)"
  shows "\<exists>t. st = cardStatsOf t (checkIns s) crd"
  using assms by (auto simp: cardAnalytics_def Let_def getAllCheckIns_def)

lemma cardAnalytics_cards: "map fst (cardAnalytics clk s) = getAllCards s"
  by (simp add: cardAnalytics_def Let_def comp_def split_def)

text \<open>
  Claim C7. \<open>GET /analytics/cards\<close> returns one entry per card of the store, in the store's
  order. In the entry of a card, \<open>totalCheckIns\<close> is the number of events with the card's
  identifier, \<open>uniqueUsers\<close> is the number of different user identifiers among these events,
  and \<open>avgCheckInsPerUser\<close> is 0 when \<open>uniqueUsers\<close> is 0 and otherwise the quotient of the
  two rounded to one decimal place: the tenth nearest to the quotient, the upper one at a
  tie, so never further than one twentieth from it.
\<close>

theorem cardAnalytics_stats:
  "map fst (cardAnalytics clk s) = getAllCards s
   \<and> (\<forall>(crd, st) \<in> set (cardAnalytics clk s).
         st_totalCheckIns st = length (filter (\<lambda>ci. ci_cardId ci = c_id crd) (checkIns s))
       \<and> st_uniqueUsers st = card (ci_userId ` {ci \<in> set (checkIns s). ci_cardId ci = c_id crd})
       \<and> (st_uniqueUsers st = 0 \<longrightarrow> st_avgCheckInsPerUser st = 0)
       \<and> (st_uniqueUsers st > 0 \<longrightarrow>
            st_avgCheckInsPerUser st
              = of_int \<lfloor>(of_nat (st_totalCheckIns st) :: rat) / of_nat (st_uniqueUsers st) * 10 + 1 / 2\<rfloor> / 10
          \<and> \<bar>st_avgCheckInsPerUser st - of_nat (st_totalCheckIns st) / of_nat (st_uniqueUsers st)\<bar>
              \<le> 1 / 20))"
proof (intro conjI ballI)
  show "map fst (cardAnalytics clk s) = getAllCards s"
    by (rule cardAnalytics_cards)
next
  fix e assume e: "e \<in> set (cardAnalytics clk s)"
  obtain crd st where p: "e = (crd, st)"
    by (cases e)
  from e p cardAnalytics_entry [of crd st clk s] obtain t where
    st: "st = cardStatsOf t (checkIns s) crd"
    by auto
  have a: "st_totalCheckIns st = length (filter (\<lambda>ci. ci_cardId ci = c_id crd) (checkIns s))"
    and b: "st_uniqueUsers st = card (ci_userId ` {ci \<in> set (checkIns s). ci_cardId ci = c_id crd})"
    and c: "st_avgCheckInsPerUser st
       = (if st_uniqueUsers st = 0 then 0
          else roundTenth (of_nat (st_totalCheckIns st) / of_nat (st_uniqueUsers st)))"
    unfolding st by (rule cardStatsOf_fields)+
  have z: "st_uniqueUsers st = 0 \<longrightarrow> st_avgCheckInsPerUser st = 0"
    by (simp add: c)
  have r: "st_uniqueUsers st > 0 \<longrightarrow>
            st_avgCheckInsPerUser st
              = of_int \<lfloor>(of_nat (st_totalCheckIns st) :: rat) / of_nat (st_uniqueUsers st) * 10 + 1 / 2\<rfloor> / 10
          \<and> \<bar>st_avgCheckInsPerUser st - of_nat (st_totalCheckIns st) / of_nat (st_uniqueUsers st)\<bar>
              \<le> 1 / 20"
    using roundTenth_near [of "of_nat (st_totalCheckIns st) / of_nat (st_uniqueUsers st)"]
    by (simp add: c) (simp add: roundTenth_def Math_round_def)
  from a b z r show "case e of (crd, st) \<Rightarrow>
         st_totalCheckIns st = length (filter (\<lambda>ci. ci_cardId ci = c_id crd) (checkIns s))
       \<and> st_uniqueUsers st = card (ci_userId ` {ci \<in> set (checkIns s). ci_cardId ci = c_id crd})
       \<and> (st_uniqueUsers st = 0 \<longrightarrow> st_avgCheckInsPerUser st = 0)
       \<and> (st_uniqueUsers st > 0 \<longrightarrow>
            st_avgCheckInsPerUser st
              = of_int \<lfloor>(of_nat (st_totalCheckIns st) :: rat) / of_nat (st_uniqueUsers st) * 10 + 1 / 2\<rfloor> / 10
          \<and> \<bar>st_avgCheckInsPerUser st - of_nat (st_totalCheckIns st) / of_nat (st_uniqueUsers st)\<bar>
              \<le> 1 / 20)"
    unfolding p by simp
qed

theorem cardAnalytics_stats_witness:
  "(mkCard coffeeId ''Coffee'' True, cardStatsOf (4 * day) (checkIns busyStore) (mkCard coffeeId ''Coffee'' True))
      \<in> set (cardAnalytics (\<lambda>i. 4 * day) busyStore)
   \<and> st_totalCheckIns (cardStatsOf (4 * day) (checkIns busyStore) (mkCard coffeeId ''Coffee'' True)) = 5
   \<and> st_uniqueUsers (cardStatsOf (4 * day) (checkIns busyStore) (mkCard coffeeId ''Coffee'' True)) = 4
   \<and> st_avgCheckInsPerUser (cardStatsOf (4 * day) (checkIns busyStore) (mkCard coffeeId ''Coffee'' True))
       = 13 / 10
   \<and> (mkCard gymId ''Gym'' False, cardStatsOf (4 * day) (checkIns busyStore) (mkCard gymId ''Gym'' False))
      \<in> set (cardAnalytics (\<lambda>i. 4 * day) busyStore)
   \<and> st_uniqueUsers (cardStatsOf (4 * day) (checkIns busyStore) (mkCard gymId ''Gym'' False)) = 0
   \<and> st_avgCheckInsPerUser (cardStatsOf (4 * day) (checkIns busyStore) (mkCard gymId ''Gym'' False)) = 0"
proof -
  let ?coffee = "mkCard coffeeId ''Coffee'' True" and ?gym = "mkCard gymId ''Gym'' False"
  let ?sc = "cardStatsOf (4 * day) (checkIns busyStore) ?coffee"
  let ?sg = "cardStatsOf (4 * day) (checkIns busyStore) ?gym"
  have all: "cardAnalytics (\<lambda>i. 4 * day) busyStore = [(?coffee, ?sc), (?gym, ?sg)]"
    by (simp add: cardAnalytics_def getAllCards_def getAllCheckIns_def Map_values_def Let_def
        busyStore_def)
  then have mem: "(?coffee, ?sc) \<in> set (cardAnalytics (\<lambda>i. 4 * day) busyStore)"
    "(?gym, ?sg) \<in> set (cardAnalytics (\<lambda>i. 4 * day) busyStore)"
    by simp_all
  have tot: "st_totalCheckIns ?sc = 5"
    by (simp add: cardStatsOf_def Let_def busyStore_def mkCheckIn_def mkCard_def)
  have uq: "st_uniqueUsers ?sc = 4"
    by (simp add: cardStatsOf_def Let_def Set_size_def busyStore_def mkCheckIn_def mkCard_def
        aliceId_def bobId_def carolId_def adminId_def)
  have ug: "st_uniqueUsers ?sg = 0"
    by (simp add: cardStatsOf_def Let_def Set_size_def busyStore_def mkCheckIn_def mkCard_def
        coffeeId_def gymId_def)
  note T = cardAnalytics_stats [where clk = "\<lambda>i. 4 * day" and s = busyStore]
  from T mem(1) have "st_uniqueUsers ?sc > 0 \<longrightarrow> st_avgCheckInsPerUser ?sc
      = of_int \<lfloor>(of_nat (st_totalCheckIns ?sc) :: rat) / of_nat (st_uniqueUsers ?sc) * 10 + 1 / 2\<rfloor> / 10"
    by fast
  then have avg: "st_avgCheckInsPerUser ?sc = 13 / 10"
    by (simp add: tot uq)
  from T mem(2) have "st_uniqueUsers ?sg = 0 \<longrightarrow> st_avgCheckInsPerUser ?sg = 0"
    by fast
  with ug have zero: "st_avgCheckInsPerUser ?sg = 0"
    by simp
  from mem tot uq avg ug zero show ?thesis
    by (intro conjI)
qed

section \<open>C4: the daily trend\<close>

lemma Map_set_keys:
  "map fst (Map_set m k v) = (if k \<in> fst ` set m then map fst m else map fst m @ [k])"
proof (induction m)
  case Nil
  show ?case by simp
next
  case (Cons e m)
  obtain k' v' where e: "e = (k', v')"
    by (cases e)
  show ?case
    using Cons.IH by (cases "k' = k") (simp_all add: e)
qed

lemma dailyStep_keys:
  "map fst (dailyStep s m ci)
     = (if formatDate (ci_timestamp ci) \<in> fst ` set m then map fst m
        else map fst m @ [formatDate (ci_timestamp ci)])"
proof (cases "formatDate (ci_timestamp ci) \<in> fst ` set m")
  case True
  then show ?thesis
    by (simp add: dailyStep_def Let_def Map_set_keys Map_has_def)
next
  case False
  then have "formatDate (ci_timestamp ci) \<in> fst ` set (Map_set m (formatDate (ci_timestamp ci)) [])"
    using Map_set_keys [of m "formatDate (ci_timestamp ci)" "[]"]
    by (metis (no_types, lifting) in_set_conv_decomp list.set_map)
  with False show ?thesis
    by (simp add: dailyStep_def Let_def Map_set_keys Map_has_def)
qed

lemma dailyStep_key_set:
  "fst ` set (dailyStep s m ci) = insert (formatDate (ci_timestamp ci)) (fst ` set m)"
proof -
  have "set (map fst (dailyStep s m ci)) = insert (formatDate (ci_timestamp ci)) (set (map fst m))"
    unfolding dailyStep_keys by (simp add: insert_absorb)
  then show ?thesis
    by (simp only: set_map)
qed

lemma foldl_dailyStep_keys:
  "fst ` set (foldl (dailyStep s) m cs) = fst ` set m \<union> formatDate ` ci_timestamp ` set cs"
  by (induction cs arbitrary: m) (simp_all add: dailyStep_key_set)

lemma foldl_dailyStep_distinct:
  "distinct (map fst m) \<Longrightarrow> distinct (map fst (foldl (dailyStep s) m cs))"
proof (induction cs arbitrary: m)
  case Nil
  then show ?case by simp
next
  case (Cons c cs)
  have "distinct (map fst (dailyStep s m c))"
    using Cons.prems by (simp add: dailyStep_keys)
  then show ?case
    by (simp add: Cons.IH)
qed

lemma dailyTrend_unsorted_dates:
  "\<exists>xs. dailyTrend a b s = sort_key de_date xs
      \<and> map de_date xs = map fst (foldl (dailyStep s) [] (getCheckInsInDateRange s a b))"
proof -
  let ?m = "foldl (dailyStep s) [] (getCheckInsInDateRange s a b)"
  let ?xs = "map (\<lambda>(date, byCard).
                \<lparr>de_date = date,
                 de_total = foldl (\<lambda>sum count. sum + count) 0 (map snd byCard),
                 de_byCard = byCard\<rparr>) ?m"
  have "dailyTrend a b s = sort_key de_date ?xs"
    by (simp add: dailyTrend_def Let_def)
  moreover have "map de_date ?xs = map fst ?m"
    by (simp add: comp_def split_def)
  ultimately show ?thesis
    by blast
qed

lemma dailyTrend_days:
  "set (map de_date (dailyTrend a b s)) = formatDate ` ci_timestamp ` set (getCheckInsInDateRange s a b)
   \<and> distinct (map de_date (dailyTrend a b s))
   \<and> sorted (map de_date (dailyTrend a b s))
   \<and> length (dailyTrend a b s) = card (formatDate ` ci_timestamp ` set (getCheckInsInDateRange s a b))"
proof -
  let ?m = "foldl (dailyStep s) [] (getCheckInsInDateRange s a b)"
  from dailyTrend_unsorted_dates obtain xs where
    xs: "dailyTrend a b s = sort_key de_date xs" "map de_date xs = map fst ?m"
    by blast
  have keys: "set (map fst ?m) = formatDate ` ci_timestamp ` set (getCheckInsInDateRange s a b)"
    using foldl_dailyStep_keys [of s "[]" "getCheckInsInDateRange s a b"] by simp
  have dist: "distinct (map fst ?m)"
    by (rule foldl_dailyStep_distinct) simp
  have 1: "set (map de_date (dailyTrend a b s)) = set (map de_date xs)"
    by (simp add: xs(1))
  have 2: "distinct (map de_date (dailyTrend a b s)) = distinct (map de_date xs)"
    by (simp add: xs(1) distinct_map)
  have 3: "sorted (map de_date (dailyTrend a b s))"
    by (simp add: xs(1))
  have "length (dailyTrend a b s) = length (map fst ?m)"
    using xs(2) by (simp add: xs(1)) (metis length_map)
  also have "\<dots> = card (set (map fst ?m))"
    using dist by (simp only: distinct_card)
  finally have 4: "length (dailyTrend a b s)
      = card (formatDate ` ci_timestamp ` set (getCheckInsInDateRange s a b))"
    by (simp only: keys)
  from 1 2 3 4 keys dist show ?thesis
    by (simp only: xs(2))
qed

text \<open>
  Claim C4 says that the daily trend has one entry for every calendar day of the range,
  with count 0 on a day without events. \<open>GET /analytics/daily\<close> builds its entries from
  the keys of the map that the events fill, so it has an entry exactly for the days on
  which an event falls (\<open>dailyTrend_days\<close>); the overview's \<open>dailyCheckIns\<close>, in the same
  file, walks through the days of its range and pushes the count or 0 for each. On the
  range of the six days 0 to 5 the store with events on the days 1, 3 and 4 gives three
  entries, and a store without events gives none.
\<close>

theorem dailyTrend_omits_days_without_events:
  "formatDate 0 = 0 \<and> formatDate (6 * day - 1) = 5
   \<and> dailyTrend 0 (6 * day - 1) busyStore
       = [\<lparr>de_date = 1, de_total = 2, de_byCard = [(''Coffee'', 2)]\<rparr>,
          \<lparr>de_date = 3, de_total = 2, de_byCard = [(''Coffee'', 2)]\<rparr>,
          \<lparr>de_date = 4, de_total = 1, de_byCard = [(''Coffee'', 1)]\<rparr>]
   \<and> dailyTrend 0 (6 * day - 1) sampleStore = []"
proof -
  have d: "formatDate 0 = 0" "formatDate (6 * day - 1) = 5"
    by (simp_all add: formatDate_def day_def)
  have r: "getCheckInsInDateRange busyStore 0 (6 * day - 1) = checkIns busyStore"
    by (simp add: getCheckInsInDateRange_def busyStore_def mkCheckIn_def day_def)
  have n: "cardNameOrUnknown busyStore coffeeId = ''Coffee''"
    by (simp add: cardNameOrUnknown_def getCardById_def Map_get_def busyStore_def mkCard_def)
  have st: "dailyStep busyStore m (mkCheckIn i u coffeeId t)
      = (let m1 = (if \<not> Map_has m (t div 86400000) then Map_set m (t div 86400000) [] else m);
             dayMap = orElse (Map_get m1 (t div 86400000)) []
         in Map_set m1 (t div 86400000)
              (Map_set dayMap ''Coffee'' (orElse (Map_get dayMap ''Coffee'') 0 + 1)))" for m i u t
    by (simp add: dailyStep_def n formatDate_def mkCheckIn_def Let_def)
  have cs: "checkIns busyStore
      = [mkCheckIn ''c1'' aliceId coffeeId (day + 3600000),
         mkCheckIn ''c2'' bobId coffeeId (day + 7200000),
         mkCheckIn ''c3'' aliceId coffeeId (3 * day + 5),
         mkCheckIn ''c4'' carolId coffeeId (3 * day + 3600000),
         mkCheckIn ''c5'' adminId coffeeId (4 * day)]"
    by (simp add: busyStore_def)
  have f: "foldl (dailyStep busyStore) [] (checkIns busyStore)
      = [(1, [(''Coffee'', 2)]), (3, [(''Coffee'', 2)]), (4, [(''Coffee'', 1)])]"
    unfolding cs by (simp add: st day_def Map_has_def Map_get_def orElse_def Let_def)
  have b: "dailyTrend 0 (6 * day - 1) busyStore
       = [\<lparr>de_date = 1, de_total = 2, de_byCard = [(''Coffee'', 2)]\<rparr>,
          \<lparr>de_date = 3, de_total = 2, de_byCard = [(''Coffee'', 2)]\<rparr>,
          \<lparr>de_date = 4, de_total = 1, de_byCard = [(''Coffee'', 1)]\<rparr>]"
    by (simp add: dailyTrend_def r f Let_def)
  have e: "dailyTrend 0 (6 * day - 1) sampleStore = []"
    by (simp add: dailyTrend_def getCheckInsInDateRange_def sampleStore_def Let_def)
  from d b e show ?thesis
    by (intro conjI)
qed

end
